theory Spec2Isabelle
  imports Main "HOL-Library.Sublist"
begin

section \<open>JavaScript strings\<close>

text \<open>
  A JavaScript string is a sequence of UTF-16 code units, and every operation the
  program uses (\<^verbatim>\<open>replace\<close>, \<^verbatim>\<open>includes\<close>, \<^verbatim>\<open>split\<close>, regular expressions without the
  \<^verbatim>\<open>u\<close> flag) works on code units. A string is modelled as a \<^typ>\<open>string\<close>; a
  \<^typ>\<open>char\<close> stands for the code unit with the same number, so the model covers the
  strings whose code units lie in U+0000 .. U+00FF. On that range lower-casing maps
  code units to code units, and the white space of \<^verbatim>\<open>\s\<close> and \<^verbatim>\<open>trim\<close> is
  TAB, LF, VT, FF, CR, SPACE and NO-BREAK SPACE.
\<close>

definition code :: "char \<Rightarrow> nat" where
  "code c = of_char c"

definition isWhiteSpace :: "char \<Rightarrow> bool" where
  "isWhiteSpace c = (code c \<in> {9, 10, 11, 12, 13, 32, 160})"

text \<open>\<^verbatim>\<open>String.prototype.toLowerCase\<close>: A-Z, and the Latin-1 capitals except the
  multiplication sign U+00D7, move up by 32.\<close>

definition toLowerChar :: "char \<Rightarrow> char" where
  "toLowerChar c =
     (if (65 \<le> code c \<and> code c \<le> 90) \<or> (192 \<le> code c \<and> code c \<le> 222 \<and> code c \<noteq> 215)
      then char_of (code c + 32) else c)"

definition toLowerCase :: "string \<Rightarrow> string" where
  "toLowerCase s = map toLowerChar s"

text \<open>\<^verbatim>\<open>String.prototype.toUpperCase\<close> on one code unit. The sharp s becomes
  \<^verbatim>\<open>SS\<close>. The upper-case forms of U+00B5 and U+00FF lie beyond U+00FF; the model
  leaves these two code units as they are.\<close>

definition toUpperChar :: "char \<Rightarrow> string" where
  "toUpperChar c =
     (if (97 \<le> code c \<and> code c \<le> 122) \<or> (224 \<le> code c \<and> code c \<le> 254 \<and> code c \<noteq> 247)
      then [char_of (code c - 32)]
      else if code c = 223 then ''SS'' else [c])"

text \<open>\<^verbatim>\<open>String.prototype.includes\<close>.\<close>

fun str_includes :: "string \<Rightarrow> string \<Rightarrow> bool" where
  "str_includes p [] = (p = [])"
| "str_includes p (c # cs) = (prefix p (c # cs) \<or> str_includes p cs)"

text \<open>\<^verbatim>\<open>String.prototype.trim\<close>.\<close>

definition trim :: "string \<Rightarrow> string" where
  "trim s = rev (dropWhile isWhiteSpace (rev (dropWhile isWhiteSpace s)))"

subsection \<open>Regular-expression replacement\<close>

text \<open>
  None of the program's regular expressions has an anchor, a look-behind or a
  back-reference, so whether one matches at a position depends only on the text from
  that position on. A \<open>matcher\<close> takes that text and returns the length of the match
  starting there, if there is one. \<open>replaceAllRe\<close> is \<^verbatim>\<open>replace\<close> with a
  \<^verbatim>\<open>/g\<close> expression: it scans from the left, replaces a match and goes on behind
  it; after an empty match it copies one code unit. The replacement is a function of
  the matched text.
\<close>

type_synonym matcher = "string \<Rightarrow> nat option"

function replaceAllRe :: "matcher \<Rightarrow> (string \<Rightarrow> string) \<Rightarrow> string \<Rightarrow> string" where
  "replaceAllRe m rep [] = (case m [] of None \<Rightarrow> [] | Some n \<Rightarrow> rep [])"
| "replaceAllRe m rep (c # cs) =
     (case m (c # cs) of
        None \<Rightarrow> c # replaceAllRe m rep cs
      | Some n \<Rightarrow>
          if n = 0 then rep [] @ c # replaceAllRe m rep cs
          else rep (take n (c # cs)) @ replaceAllRe m rep (drop n (c # cs)))"
  by pat_completeness auto
termination
  by (relation "measure (\<lambda>(m, rep, s). length s)") auto

text \<open>\<^verbatim>\<open>replace\<close> with an expression that has no \<^verbatim>\<open>/g\<close>: the leftmost match only.\<close>

fun replaceFirstRe :: "matcher \<Rightarrow> (string \<Rightarrow> string) \<Rightarrow> string \<Rightarrow> string" where
  "replaceFirstRe m rep [] = (case m [] of None \<Rightarrow> [] | Some n \<Rightarrow> rep [])"
| "replaceFirstRe m rep (c # cs) =
     (case m (c # cs) of
        None \<Rightarrow> c # replaceFirstRe m rep cs
      | Some n \<Rightarrow> rep (take n (c # cs)) @ drop n (c # cs))"

text \<open>A literal text as an expression, for instance \<^verbatim>\<open>/<svg/\<close>.\<close>

definition literal :: "string \<Rightarrow> matcher" where
  "literal p s = (if prefix p s then Some (length p) else None)"

text \<open>\<^verbatim>\<open>/\s+/\<close>: the longest run of white space, at least one code unit.\<close>

definition whiteSpaceRun :: matcher where
  "whiteSpaceRun s =
     (let n = length (takeWhile isWhiteSpace s) in if n = 0 then None else Some n)"

text \<open>\<^verbatim>\<open>/[^a-z0-9-]/\<close>: one code unit outside the class.\<close>

definition inFilenameClass :: "char \<Rightarrow> bool" where
  "inFilenameClass c =
     ((97 \<le> code c \<and> code c \<le> 122) \<or> (48 \<le> code c \<and> code c \<le> 57) \<or> code c = 45)"

definition outsideFilenameClass :: matcher where
  "outsideFilenameClass s =
     (case s of [] \<Rightarrow> None | c # cs \<Rightarrow> if inFilenameClass c then None else Some 1)"

text \<open>
  \<^verbatim>\<open>replace\<close> with a text as the pattern: the first occurrence only, and the
  replacement text is expanded as \<^verbatim>\<open>GetSubstitution\<close> prescribes when there are no
  capture groups: \<^verbatim>\<open>$$\<close> is a dollar sign, \<^verbatim>\<open>$&\<close> the matched text,
  \<^verbatim>\<open>$`\<close> the text before the match and \<^verbatim>\<open>$'\<close> the text behind it; any other
  dollar sign stands for itself.
\<close>

fun getSubstitution :: "string \<Rightarrow> string \<Rightarrow> string \<Rightarrow> string \<Rightarrow> string" where
  "getSubstitution matched pre post (c # d # r) =
     (if c = CHR ''$'' \<and> d = CHR ''$'' then CHR ''$'' # getSubstitution matched pre post r
      else if c = CHR ''$'' \<and> d = CHR ''&'' then matched @ getSubstitution matched pre post r
      else if c = CHR ''$'' \<and> d = CHR 0x60 then pre @ getSubstitution matched pre post r
      else if c = CHR ''$'' \<and> d = CHR 0x27 then post @ getSubstitution matched pre post r
      else c # getSubstitution matched pre post (d # r))"
| "getSubstitution matched pre post r = r"

fun splitAtFirst :: "string \<Rightarrow> string \<Rightarrow> (string \<times> string) option" where
  "splitAtFirst p [] = (if p = [] then Some ([], []) else None)"
| "splitAtFirst p (c # cs) =
     (if prefix p (c # cs) then Some ([], drop (length p) (c # cs))
      else case splitAtFirst p cs of None \<Rightarrow> None | Some (a, b) \<Rightarrow> Some (c # a, b))"

definition replaceStr :: "string \<Rightarrow> string \<Rightarrow> string \<Rightarrow> string" where
  "replaceStr p r s =
     (case splitAtFirst p s of
        None \<Rightarrow> s
      | Some (a, b) \<Rightarrow> a @ getSubstitution p a b r @ b)"

text \<open>\<^verbatim>\<open>split\<close> at a one-unit separator: the empty string gives one empty part.\<close>

fun str_split :: "char \<Rightarrow> string \<Rightarrow> string list" where
  "str_split sep [] = [[]]"
| "str_split sep (c # cs) =
     (if c = sep then [] # str_split sep cs
      else case str_split sep cs of [] \<Rightarrow> [[c]] | p # ps \<Rightarrow> (c # p) # ps)"

text \<open>
  A number in a template or under \<^verbatim>\<open>toString\<close>. Status codes are naturals; the
  size is modelled as an integer, printed in decimal as JavaScript prints an integer
  below \<open>10\<^sup>2\<^sup>1\<close>.
\<close>

function natToString :: "nat \<Rightarrow> string" where
  "natToString n =
     (if n < 10 then [''0123456789'' ! n]
      else natToString (n div 10) @ [''0123456789'' ! (n mod 10)])"
  by pat_completeness auto
termination
  by (relation "measure id") auto

declare natToString.simps [simp del]

definition numberToString :: "int \<Rightarrow> string" where
  "numberToString n =
     (if n < 0 then CHR ''-'' # natToString (nat (- n)) else natToString (nat n))"

text \<open>\<^verbatim>\<open>a || d\<close> on an optional string: the empty string is falsy as \<^verbatim>\<open>undefined\<close> is.\<close>

definition truthy :: "string option \<Rightarrow> bool" where
  "truthy a = (case a of None \<Rightarrow> False | Some s \<Rightarrow> s \<noteq> [])"

definition orElse :: "string option \<Rightarrow> string \<Rightarrow> string" where
  "orElse a d = (case a of None \<Rightarrow> d | Some s \<Rightarrow> if s = [] then d else s)"

section \<open>types: the data model\<close>

record RepositoryConfig =
  repositoryName :: string
  owner :: string
  repo :: string
  branch :: "string option"
  pathTemplate :: string
  variantMap :: "(string \<times> string) list option"
  demoUrl :: "string option"

text \<open>The class \<^verbatim>\<open>IconInput\<close>: its fields, \<^verbatim>\<open>svgText\<close> absent until downloaded.\<close>

record IconInput =
  output_dir :: string
  name :: string
  filename :: string
  variant :: "string option"
  icon_size :: "int option"
  repository :: RepositoryConfig
  overwrite :: bool
  tsxTransform :: bool
  svgText :: "string option"

section \<open>The environment: network, console and file system\<close>

datatype error = Error string

text \<open>What \<^verbatim>\<open>fetch\<close> resolves to; \<^verbatim>\<open>response.text()\<close> resolves or rejects.\<close>

record Response =
  ok :: bool
  status :: nat
  statusText :: string
  bodyText :: "error + string"

text \<open>The network answers a request for a URL with a response, or \<^verbatim>\<open>fetch\<close> rejects.\<close>

type_synonym network = "string \<Rightarrow> error + Response"

text \<open>
  The observable world: the URLs requested so far, the lines written by
  \<^verbatim>\<open>console.warn\<close>, the directories asked of \<^verbatim>\<open>mkdir\<close>, and the files.
\<close>

record world =
  fetched :: "string list"
  warned :: "string list"
  mkdirs :: "string list"
  files :: "string \<rightharpoonup> string"

text \<open>The file-system calls of the writer; each may reject.\<close>

record fileSystem =
  mkdir :: "string \<Rightarrow> world \<Rightarrow> error + world"
  writeFile :: "string \<Rightarrow> string \<Rightarrow> world \<Rightarrow> error + world"

text \<open>A file system in memory: \<^verbatim>\<open>mkdir\<close> with \<^verbatim>\<open>recursive\<close> succeeds, and
  \<^verbatim>\<open>writeFile\<close> replaces what the path held.\<close>

definition memoryFs :: fileSystem where
  "memoryFs =
     \<lparr> mkdir = (\<lambda>dir w. Inr (w\<lparr>mkdirs := mkdirs w @ [dir]\<rparr>)),
       writeFile = (\<lambda>path content w. Inr (w\<lparr>files := (files w)(path \<mapsto> content)\<rparr>)) \<rparr>"

text \<open>\<^verbatim>\<open>path.dirname\<close> (POSIX): trailing slashes are skipped, then the path is cut at
  the last slash behind position 0.\<close>

definition dirname :: "string \<Rightarrow> string" where
  "dirname path =
     (case path of
        [] \<Rightarrow> ''.''
      | c # cs \<Rightarrow>
          let hasRoot = (c = CHR ''/'');
              r = dropWhile (\<lambda>x. x \<noteq> CHR ''/'') (dropWhile (\<lambda>x. x = CHR ''/'') (rev cs));
              cut = length r
          in if r = [] then (if hasRoot then ''/'' else ''.'')
             else if hasRoot \<and> cut = 1 then ''//''
             else take cut path)"

section \<open>utils: the sanitizer and the error log\<close>

text \<open>\<^verbatim>\<open>logError\<close> writes the message of the error with \<^verbatim>\<open>console.warn\<close>.\<close>

definition logError :: "IconInput \<Rightarrow> string \<Rightarrow> error \<Rightarrow> world \<Rightarrow> world" where
  "logError icon method err w = (case err of Error message \<Rightarrow> w\<lparr>warned := warned w @ [message]\<rparr>)"

text \<open>\<^verbatim>\<open>santizeFilename\<close>: lower case, each run of white space to one hyphen, then
  every code unit outside \<^verbatim>\<open>[a-z0-9-]\<close> to a hyphen.\<close>

definition santizeFilename :: "string \<Rightarrow> string" where
  "santizeFilename rawFilename =
     replaceAllRe outsideFilenameClass (\<lambda>_. ''-'')
       (replaceAllRe whiteSpaceRun (\<lambda>_. ''-'') (toLowerCase rawFilename))"

section \<open>IconInput: the URL builder and the downloader\<close>

definition buildUrl :: "IconInput \<Rightarrow> string" where
  "buildUrl this =
     (let baseUrl = ''https://raw.githubusercontent.com/'' @ owner (repository this) @ ''/''
            @ repo (repository this) @ ''/'' @ orElse (branch (repository this)) ''main'';
          path = pathTemplate (repository this);
          path = replaceStr ''{iconName}'' (name this)
                   (replaceStr ''{size}'' (orElse (map_option numberToString (icon_size this)) [])
                      (replaceStr ''{variant}'' (orElse (variant this) []) path))
      in baseUrl @ ''/'' @ path)"

definition downloadError :: "IconInput \<Rightarrow> string \<Rightarrow> Response \<Rightarrow> error" where
  "downloadError this url response =
     Error (''Failed to download icon '' @ name this @ '' from '' @ url @ '': ''
            @ natToString (status response) @ '' '' @ statusText response)"

definition grabSvgText :: "network \<Rightarrow> IconInput \<Rightarrow> world \<Rightarrow> (error + unit) \<times> IconInput \<times> world" where
  "grabSvgText fetch this w =
     (if truthy (svgText this) then (Inr (), this, w)
      else
        let url = buildUrl this;
            w1 = w\<lparr>fetched := fetched w @ [url]\<rparr>
        in case fetch url of
             Inl rejected \<Rightarrow> (Inl rejected, this, w1)
           | Inr response \<Rightarrow>
               if \<not> ok response then
                 let err = downloadError this url response
                 in (Inl err, this, logError this ''grabSvgText'' err w1)
               else (case bodyText response of
                       Inl rejected \<Rightarrow> (Inl rejected, this, w1)
                     | Inr data \<Rightarrow> (Inr (), this\<lparr>svgText := Some data\<rparr>, w1)))"

section \<open>IconInput: the SVG to TSX transformer\<close>

text \<open>\<^verbatim>\<open>/<\?xml[^?]*\?>/\<close>: the class cannot take a question mark, so the greedy run
  ends at the first one, which must open \<^verbatim>\<open>?>\<close>.\<close>

definition xmlDeclaration :: matcher where
  "xmlDeclaration s =
     (if prefix ''<?xml'' s then
        let run = takeWhile (\<lambda>c. c \<noteq> CHR ''?'') (drop 5 s)
        in if prefix ''?>'' (drop (5 + length run) s) then Some (5 + length run + 2) else None
      else None)"

text \<open>\<^verbatim>\<open>/attr="[^"]*"/\<close> for an attribute name: the value runs to the next double
  quote, and without one there is no match.\<close>

definition quotedAttribute :: "string \<Rightarrow> matcher" where
  "quotedAttribute attr s =
     (let opening = attr @ [CHR ''='', CHR 0x22]
      in if prefix opening s then
           let run = takeWhile (\<lambda>c. c \<noteq> CHR 0x22) (drop (length opening) s)
           in if drop (length opening + length run) s = [] then None
              else Some (length opening + length run + 1)
         else None)"

text \<open>\<^verbatim>\<open>/<svg([^>]*)>/\<close>, and the text of its group in a match.\<close>

definition svgOpeningTag :: matcher where
  "svgOpeningTag s =
     (if prefix ''<svg'' s then
        let run = takeWhile (\<lambda>c. c \<noteq> CHR ''>'') (drop 4 s)
        in if drop (4 + length run) s = [] then None else Some (4 + length run + 1)
      else None)"

definition group1 :: "string \<Rightarrow> string" where
  "group1 matched = butlast (drop 4 matched)"

definition attributeMap :: "(string \<times> string) list" where
  "attributeMap =
     [(''stroke-width'', ''strokeWidth''),
      (''stroke-linecap'', ''strokeLinecap''),
      (''stroke-linejoin'', ''strokeLinejoin''),
      (''fill-rule'', ''fillRule''),
      (''clip-rule'', ''clipRule''),
      (''fill-opacity'', ''fillOpacity''),
      (''stroke-opacity'', ''strokeOpacity'')]"

text \<open>The steps of \<^verbatim>\<open>processSvgForReact\<close> on the text \<^verbatim>\<open>processed\<close>, in the order
  of the source.\<close>

definition removeXmlDeclaration :: "string \<Rightarrow> string" where
  "removeXmlDeclaration processed = replaceAllRe xmlDeclaration (\<lambda>_. []) processed"

definition camelCaseAttributes :: "string \<Rightarrow> string" where
  "camelCaseAttributes processed =
     foldl (\<lambda>processed (kebab, camel). replaceAllRe (literal kebab) (\<lambda>_. camel) processed)
       processed attributeMap"

definition widthProp :: "string \<Rightarrow> string" where
  "widthProp processed =
     (if str_includes ''width='' processed
      then replaceAllRe (quotedAttribute ''width'') (\<lambda>_. ''width={width}'') processed
      else replaceFirstRe (literal ''<svg'') (\<lambda>_. ''<svg width={width}'') processed)"

definition heightProp :: "string \<Rightarrow> string" where
  "heightProp processed =
     (if str_includes ''height='' processed
      then replaceAllRe (quotedAttribute ''height'') (\<lambda>_. ''height={height}'') processed
      else replaceFirstRe (literal ''<svg'') (\<lambda>_. ''<svg height={height}'') processed)"

definition titleElement :: string where
  "titleElement = ''\<newline>        <title>{title}</title>''"

definition insertTitle :: "string \<Rightarrow> string" where
  "insertTitle processed =
     replaceFirstRe svgOpeningTag (\<lambda>matched. ''<svg'' @ group1 matched @ ''>'' @ titleElement)
       processed"

definition removeClass :: "string \<Rightarrow> string" where
  "removeClass processed = replaceAllRe (quotedAttribute ''class'') (\<lambda>_. []) processed"

definition spreadRest :: "string \<Rightarrow> string" where
  "spreadRest processed = replaceFirstRe (literal ''<svg'') (\<lambda>_. ''<svg {...rest}'') processed"

definition rewriteMarkup :: "string \<Rightarrow> string" where
  "rewriteMarkup svg =
     spreadRest (removeClass (insertTitle (heightProp (widthProp
       (camelCaseAttributes (removeXmlDeclaration svg))))))"

text \<open>The markup as it reaches the title step of \<^verbatim>\<open>processSvgForReact\<close>.\<close>

definition beforeTitle :: "string \<Rightarrow> string" where
  "beforeTitle svg = heightProp (widthProp (camelCaseAttributes (removeXmlDeclaration svg)))"

text \<open>The template literal that \<^verbatim>\<open>processSvgForReact\<close> returns: the text before the
  markup, with the name of the icon interpolated, the trimmed markup, and the text behind
  it.\<close>

definition sourceBefore :: "string \<Rightarrow> string" where
  "sourceBefore iconName =
     ''\<newline>import type { SVGProps } from 'react';\<newline>\<newline>''
     @ ''interface IconProps extends SVGProps<SVGSVGElement> {\<newline>''
     @ ''    title?: string;\<newline>''
     @ ''}\<newline>\<newline>''
     @ ''export default function BootstrapHeart({\<newline>''
     @ ''    title = '' @ [CHR 0x27] @ iconName @ [CHR 0x27] @ '',\<newline>''
     @ ''    width,\<newline>''
     @ ''    height,\<newline>''
     @ ''    ...rest\<newline>''
     @ ''}: IconProps): React.ReactNode {\<newline>''
     @ ''    return (\<newline>''
     @ ''        ''"

definition sourceAfter :: string where
  "sourceAfter =
     ''\<newline>''
     @ ''    );\<newline>''
     @ ''}\<newline>''
     @ ''        ''"

definition componentSource :: "string \<Rightarrow> string \<Rightarrow> string" where
  "componentSource iconName processed =
     sourceBefore iconName @ trim processed @ sourceAfter"

definition processSvgForReact :: "IconInput \<Rightarrow> string \<Rightarrow> error + string" where
  "processSvgForReact this componentName =
     (case svgText this of
        None \<Rightarrow> Inl (Error (''SVG text is not available for icon '' @ name this))
      | Some svg \<Rightarrow>
          if svg = [] then Inl (Error (''SVG text is not available for icon '' @ name this))
          else Inr (componentSource (name this) (rewriteMarkup svg)))"

text \<open>The component name that \<^verbatim>\<open>transform\<close> derives from the file name.\<close>

definition componentNameOf :: "string \<Rightarrow> string" where
  "componentNameOf file =
     concat (map (\<lambda>part. case part of [] \<Rightarrow> [] | c # cs \<Rightarrow> toUpperChar c @ cs)
                 (str_split (CHR ''-'') file))"

definition transform :: "IconInput \<Rightarrow> error + IconInput" where
  "transform this =
     (if \<not> truthy (svgText this)
      then Inl (Error (''Icon data is not downloaded for '' @ name this))
      else if tsxTransform this then
        (case processSvgForReact this (componentNameOf (filename this)) of
           Inl err \<Rightarrow> Inl err
         | Inr source \<Rightarrow> Inr (this\<lparr>svgText := Some source\<rparr>))
      else Inr this)"

section \<open>IconInput: the writer and the pipeline\<close>

definition filePathOf :: "IconInput \<Rightarrow> string" where
  "filePathOf this =
     (if tsxTransform this then output_dir this @ ''/'' @ filename this @ ''.tsx''
      else output_dir this @ ''/'' @ filename this @ ''.svg'')"

definition saveToFile :: "fileSystem \<Rightarrow> IconInput \<Rightarrow> world \<Rightarrow> (error + unit) \<times> world" where
  "saveToFile fs this w =
     (case svgText this of
        None \<Rightarrow> (Inl (Error (''Icon data is not downloaded for '' @ name this)), w)
      | Some svg \<Rightarrow>
          if svg = [] then (Inl (Error (''Icon data is not downloaded for '' @ name this)), w)
          else
            let filePath = filePathOf this
            in (case mkdir fs (dirname filePath) w of
                  Inl rejected \<Rightarrow> (Inl rejected, w)
                | Inr w1 \<Rightarrow>
                    (case writeFile fs filePath svg w1 of
                       Inl rejected \<Rightarrow> (Inl rejected, w1)
                     | Inr w2 \<Rightarrow> (Inr (), w2))))"

definition download :: "network \<Rightarrow> fileSystem \<Rightarrow> IconInput \<Rightarrow> world \<Rightarrow> (error + unit) \<times> IconInput \<times> world" where
  "download fetch fs this w =
     (case grabSvgText fetch this w of
        (Inl err, this1, w1) \<Rightarrow> (Inl err, this1, w1)
      | (Inr _, this1, w1) \<Rightarrow>
          (case transform this1 of
             Inl err \<Rightarrow> (Inl err, this1, w1)
           | Inr this2 \<Rightarrow>
               (case saveToFile fs this2 w1 of (result, w2) \<Rightarrow> (result, this2, w2))))"

section \<open>Fixtures and measures used in the statements\<close>

text \<open>The repository and the icon of the URL example.\<close>

definition heroicons :: RepositoryConfig where
  "heroicons =
     \<lparr> repositoryName = ''heroicons'', owner = ''tailwindlabs'', repo = ''heroicons'',
       branch = Some ''master'', pathTemplate = ''optimized/24/{variant}/{iconName}.svg'',
       variantMap = None, demoUrl = None \<rparr>"

definition arrowRight :: IconInput where
  "arrowRight =
     \<lparr> output_dir = ''./icons'', name = ''arrow-right'', filename = ''arrow-right'',
       variant = Some ''outline'', icon_size = Some 24, repository = heroicons,
       overwrite = False, tsxTransform = False, svgText = None \<rparr>"

definition emptyWorld :: world where
  "emptyWorld = \<lparr> fetched = [], warned = [], mkdirs = [], files = Map.empty \<rparr>"

text \<open>Responses, networks that give one answer to every request, and more icons.\<close>

definition notFound :: Response where
  "notFound = \<lparr> ok = False, status = 404, statusText = ''Not Found'', bodyText = Inr ''404: Not Found'' \<rparr>"

definition okWith :: "string \<Rightarrow> Response" where
  "okWith body = \<lparr> ok = True, status = 200, statusText = ''OK'', bodyText = Inr body \<rparr>"

definition answering :: "Response \<Rightarrow> network" where
  "answering response url = Inr response"

definition duplicated :: IconInput where
  "duplicated = arrowRight\<lparr>repository :=
       heroicons\<lparr>pathTemplate := ''{variant}/{variant}/{size}{size}/{iconName}-{iconName}.svg''\<rparr>\<rparr>"

definition heart :: IconInput where
  "heart = arrowRight\<lparr>name := ''heart'', filename := ''heart'', svgText := Some ''<svg></svg>''\<rparr>"

text \<open>Two calls of the downloader in a row, each with the network of its moment.\<close>

definition grabSvgTextTwice :: "network \<Rightarrow> network \<Rightarrow> IconInput \<Rightarrow> world \<Rightarrow> (error + unit) \<times> IconInput \<times> world" where
  "grabSvgTextTwice fetch1 fetch2 this w =
     (case grabSvgText fetch1 this w of (result, this1, w1) \<Rightarrow> grabSvgText fetch2 this1 w1)"

text \<open>The number of positions of a text at which a pattern occurs.\<close>

fun occurrences :: "string \<Rightarrow> string \<Rightarrow> nat" where
  "occurrences p [] = (if p = [] then 1 else 0)"
| "occurrences p (c # cs) = (if prefix p (c # cs) then 1 else 0) + occurrences p cs"

text \<open>A text without any match of an expression, at any position.\<close>

fun noMatch :: "matcher \<Rightarrow> string \<Rightarrow> bool" where
  "noMatch m [] = (m [] = None)"
| "noMatch m (c # cs) = (m (c # cs) = None \<and> noMatch m cs)"

text \<open>Two texts are apart when no non-empty suffix of the first is a prefix of the second
  or begins with the second.\<close>

fun apart :: "string \<Rightarrow> string \<Rightarrow> bool" where
  "apart [] y = True"
| "apart (c # cs) y = (\<not> prefix (c # cs) y \<and> \<not> prefix y (c # cs) \<and> apart cs y)"

abbreviation (input) dq :: char where "dq \<equiv> CHR 0x22"

text \<open>Every \<^verbatim>\<open>class="\<close> in a text is followed by a double quote in that text.\<close>

fun closedClass :: "string \<Rightarrow> bool" where
  "closedClass [] = True"
| "closedClass (c # cs) =
     ((prefix (''class='' @ [dq]) (c # cs)
         \<longrightarrow> CHR 0x22 \<in> set (drop 7 (c # cs)))
      \<and> closedClass cs)"

text \<open>Icons and markup for the transformer.\<close>

definition classWithGt :: IconInput where
  \<open>classWithGt = heart\<lparr>svgText := Some ''<svg class="a>b"></svg>''\<rparr>\<close>

definition prefixedRoot :: IconInput where
  \<open>prefixedRoot = heart\<lparr>svgText := Some ''<s:svg xmlns:s="http://www.w3.org/2000/svg"></s:svg>''\<rparr>\<close>

definition bootstrapSvg :: string where
  \<open>bootstrapSvg = ''<?xml version="1.0" encoding="UTF-8"?><svg class="bi bi-heart" viewBox="0 0 16 16"><path d="M8 2z"/></svg>''\<close>

definition bootstrapAttributes :: string where
  \<open>bootstrapAttributes = '' height={height} width={width} class="bi bi-heart" viewBox="0 0 16 16"''\<close>

definition bootstrapBody :: string where
  \<open>bootstrapBody = ''<path d="M8 2z"/></svg>''\<close>

definition bootstrapHeart :: IconInput where
  "bootstrapHeart = heart\<lparr>svgText := Some bootstrapSvg\<rparr>"

definition checkIcon :: IconInput where
  "checkIcon =
     \<lparr> output_dir = ''./icons'', name = ''check'', filename = ''check-icon'',
       variant = Some ''24/solid'', icon_size = None, repository = heroicons,
       overwrite = False, tsxTransform = True, svgText = Some ''<svg></svg>'' \<rparr>"

definition sized :: IconInput where
  \<open>sized = heart\<lparr>svgText := Some ''<svg width="24" height="24">''\<rparr>\<close>

definition doubleQuoted :: string where
  \<open>doubleQuoted = ''<svg width="24" height="24">''\<close>

definition singleQuoted :: string where
  \<open>singleQuoted = ''<svg width='24' height='24'></svg>''\<close>

definition unsized :: string where
  \<open>unsized = ''<svg viewBox="0 0 24 24"></svg>''\<close>

section \<open>Properties of the string primitives\<close>

lemma toLowerChar_fixes_class: "inFilenameClass c \<Longrightarrow> toLowerChar c = c"
  by (auto simp: inFilenameClass_def toLowerChar_def)

lemma toLowerCase_fixes_class:
  "\<forall>c \<in> set s. inFilenameClass c \<Longrightarrow> toLowerCase s = s"
  by (induction s) (simp_all add: toLowerCase_def toLowerChar_fixes_class)

lemma class_not_whiteSpace: "inFilenameClass c \<Longrightarrow> \<not> isWhiteSpace c"
  by (auto simp: inFilenameClass_def isWhiteSpace_def)

lemma whiteSpaceRun_fixes_class:
  "\<forall>c \<in> set s. inFilenameClass c \<Longrightarrow> replaceAllRe whiteSpaceRun rep s = s"
  by (induction s) (simp_all add: whiteSpaceRun_def class_not_whiteSpace)

lemma outside_is_map:
  "replaceAllRe outsideFilenameClass (\<lambda>_. ''-'') s
     = map (\<lambda>c. if inFilenameClass c then c else CHR ''-'') s"
  by (induction s) (simp_all add: outsideFilenameClass_def)

lemma hyphen_in_class: "inFilenameClass (CHR ''-'')"
  by (simp add: inFilenameClass_def code_def)

lemma santizeFilename_class: "\<forall>c \<in> set (santizeFilename s). inFilenameClass c"
  by (auto simp: santizeFilename_def outside_is_map hyphen_in_class)

lemma santizeFilename_fixes_class:
  assumes "\<forall>c \<in> set s. inFilenameClass c"
  shows "santizeFilename s = s"
proof -
  have "replaceAllRe whiteSpaceRun (\<lambda>_. ''-'') (toLowerCase s) = s"
    using assms by (simp add: toLowerCase_fixes_class whiteSpaceRun_fixes_class)
  moreover have "map (\<lambda>c. if inFilenameClass c then c else CHR ''-'') s = s"
    using assms by (induction s) simp_all
  ultimately show ?thesis
    by (simp add: santizeFilename_def outside_is_map)
qed

section \<open>Properties of text replacement\<close>

lemma splitAtFirst_Some: "splitAtFirst p s = Some (a, b) \<Longrightarrow> s = a @ p @ b"
proof (induction s arbitrary: a)
  case Nil
  then show ?case by (simp split: if_splits)
next
  case (Cons c cs)
  show ?case
  proof (cases "prefix p (c # cs)")
    case True
    then obtain r where r: "c # cs = p @ r" by (auto simp: prefix_def)
    from True Cons.prems have "a = []" and "b = drop (length p) (c # cs)" by auto
    moreover have "drop (length p) (c # cs) = r" by (simp add: r)
    ultimately show ?thesis using r by simp
  next
    case False
    with Cons.prems obtain a' where "splitAtFirst p cs = Some (a', b)" and "a = c # a'"
      by (auto split: option.splits)
    with Cons.IH show ?thesis by simp
  qed
qed

lemma occurrences_append_ge:
  "p \<noteq> [] \<Longrightarrow> occurrences p x + occurrences p y \<le> occurrences p (x @ y)"
proof (induction x)
  case Nil
  then show ?case by simp
next
  case (Cons c x)
  have "prefix p (c # x) \<Longrightarrow> prefix p (c # x @ y)"
    by (metis append_Cons prefix_prefix)
  with Cons show ?case by auto
qed

lemma prefix_stops_at_brace:
  assumes "prefix p (x @ CHR ''{'' # y)" and "x \<noteq> []" and "CHR ''{'' \<notin> set (tl p)"
  shows "prefix p x"
proof (rule ccontr)
  assume "\<not> prefix p x"
  with assms(1) obtain us where p: "p = x @ us" and us: "prefix us (CHR ''{'' # y)"
    by (auto simp: prefix_append)
  from \<open>\<not> prefix p x\<close> p have "us \<noteq> []" by auto
  with us obtain us' where "us = CHR ''{'' # us'" by (cases us) auto
  with p assms(2) have "CHR ''{'' \<in> set (tl p)" by (cases x) auto
  with assms(3) show False by simp
qed

lemma occurrences_before_brace:
  assumes "CHR ''{'' \<notin> set (tl p)" and "p \<noteq> []"
  shows "occurrences p (a @ CHR ''{'' # y) = occurrences p a + occurrences p (CHR ''{'' # y)"
proof (induction a)
  case Nil
  then show ?case using assms by simp
next
  case (Cons c a)
  have "prefix p (c # a @ CHR ''{'' # y) = prefix p (c # a)"
    using prefix_stops_at_brace [of p "c # a" y] assms(1)
    by (metis append_Cons list.distinct(1) prefix_prefix)
  with Cons show ?case by simp
qed

lemma replaceStr_keeps:
  assumes "CHR ''{'' \<notin> set (tl p)" and "p \<noteq> []" and q: "q = CHR ''{'' # q'"
    and k: "\<And>b. occurrences p (q @ b) \<le> k + occurrences p b"
  shows "occurrences p s \<le> k + occurrences p (replaceStr q r s)"
proof (cases "splitAtFirst q s")
  case None
  then show ?thesis by (simp add: replaceStr_def)
next
  case (Some ab)
  obtain a b where ab: "ab = (a, b)" by (cases ab)
  with Some have s: "s = a @ q @ b" by (simp add: splitAtFirst_Some)
  have "occurrences p s = occurrences p a + occurrences p (q @ b)"
    using occurrences_before_brace [OF assms(1,2), of a "q' @ b"] s q by simp
  also have "\<dots> \<le> occurrences p a + (k + occurrences p b)"
    using k [of b] by simp
  also have "\<dots> \<le> k + occurrences p (a @ getSubstitution q a b r @ b)"
    using occurrences_append_ge [OF assms(2), of a "getSubstitution q a b r @ b"]
      occurrences_append_ge [OF assms(2), of "getSubstitution q a b r" b]
    by simp
  finally show ?thesis using Some ab by (simp add: replaceStr_def)
qed

lemma variant_chain:
  "occurrences ''{variant}'' t
     \<le> Suc (occurrences ''{variant}''
          (replaceStr ''{iconName}'' n (replaceStr ''{size}'' z (replaceStr ''{variant}'' v t))))"
proof -
  have 1: "occurrences ''{variant}'' t \<le> 1 + occurrences ''{variant}'' (replaceStr ''{variant}'' v t)"
    by (rule replaceStr_keeps [where q' = "''variant}''"]) simp_all
  have 2: "occurrences ''{variant}'' u \<le> 0 + occurrences ''{variant}'' (replaceStr ''{size}'' z u)" for u
    by (rule replaceStr_keeps [where q' = "''size}''"]) simp_all
  have 3: "occurrences ''{variant}'' u \<le> 0 + occurrences ''{variant}'' (replaceStr ''{iconName}'' n u)" for u
    by (rule replaceStr_keeps [where q' = "''iconName}''"]) simp_all
  show ?thesis
    using 1 2 [of "replaceStr ''{variant}'' v t"]
      3 [of "replaceStr ''{size}'' z (replaceStr ''{variant}'' v t)"]
    by simp
qed

lemma size_chain:
  "occurrences ''{size}'' t
     \<le> Suc (occurrences ''{size}''
          (replaceStr ''{iconName}'' n (replaceStr ''{size}'' z (replaceStr ''{variant}'' v t))))"
proof -
  have 1: "occurrences ''{size}'' t \<le> 0 + occurrences ''{size}'' (replaceStr ''{variant}'' v t)"
    by (rule replaceStr_keeps [where q' = "''variant}''"]) simp_all
  have 2: "occurrences ''{size}'' u \<le> 1 + occurrences ''{size}'' (replaceStr ''{size}'' z u)" for u
    by (rule replaceStr_keeps [where q' = "''size}''"]) simp_all
  have 3: "occurrences ''{size}'' u \<le> 0 + occurrences ''{size}'' (replaceStr ''{iconName}'' n u)" for u
    by (rule replaceStr_keeps [where q' = "''iconName}''"]) simp_all
  show ?thesis
    using 1 2 [of "replaceStr ''{variant}'' v t"]
      3 [of "replaceStr ''{size}'' z (replaceStr ''{variant}'' v t)"]
    by simp
qed

lemma iconName_chain:
  "occurrences ''{iconName}'' t
     \<le> Suc (occurrences ''{iconName}''
          (replaceStr ''{iconName}'' n (replaceStr ''{size}'' z (replaceStr ''{variant}'' v t))))"
proof -
  have 1: "occurrences ''{iconName}'' t \<le> 0 + occurrences ''{iconName}'' (replaceStr ''{variant}'' v t)"
    by (rule replaceStr_keeps [where q' = "''variant}''"]) simp_all
  have 2: "occurrences ''{iconName}'' u \<le> 0 + occurrences ''{iconName}'' (replaceStr ''{size}'' z u)" for u
    by (rule replaceStr_keeps [where q' = "''size}''"]) simp_all
  have 3: "occurrences ''{iconName}'' u \<le> 1 + occurrences ''{iconName}'' (replaceStr ''{iconName}'' n u)" for u
    by (rule replaceStr_keeps [where q' = "''iconName}''"]) simp_all
  show ?thesis
    using 1 2 [of "replaceStr ''{variant}'' v t"]
      3 [of "replaceStr ''{size}'' z (replaceStr ''{variant}'' v t)"]
    by simp
qed

lemma occurrences_suffix: "p \<noteq> [] \<Longrightarrow> occurrences p u \<le> occurrences p (b @ u)"
  using occurrences_append_ge [of p b u] by linarith

lemma buildUrl_path:
  "buildUrl this =
      (''https://raw.githubusercontent.com/'' @ owner (repository this) @ ''/''
        @ repo (repository this) @ ''/'' @ orElse (branch (repository this)) ''main'' @ ''/'') @
      replaceStr ''{iconName}'' (name this)
        (replaceStr ''{size}'' (orElse (map_option numberToString (icon_size this)) [])
           (replaceStr ''{variant}'' (orElse (variant this) []) (pathTemplate (repository this))))"
  by (simp add: buildUrl_def Let_def)

lemma occurrences_buildUrl:
  assumes "p \<noteq> []"
  shows "occurrences p
           (replaceStr ''{iconName}'' (name this)
              (replaceStr ''{size}'' (orElse (map_option numberToString (icon_size this)) [])
                 (replaceStr ''{variant}'' (orElse (variant this) [])
                    (pathTemplate (repository this)))))
         \<le> occurrences p (buildUrl this)"
  unfolding buildUrl_path by (rule occurrences_suffix [OF assms])

lemma saveToFile_overwrite: "saveToFile fs (this\<lparr>overwrite := b\<rparr>) w = saveToFile fs this w"
  by (simp add: saveToFile_def filePathOf_def Let_def split: option.splits sum.splits)

section \<open>Properties of expression replacement\<close>

lemma takeWhile_shorter: "x \<in> set u \<Longrightarrow> \<not> P x \<Longrightarrow> length (takeWhile P u) < length u"
  by (induction u) auto

lemma quotedAttribute_Some:
  "quotedAttribute attr t = Some n \<longleftrightarrow>
     prefix (attr @ [CHR ''='', dq]) t \<and> dq \<in> set (drop (length attr + 2) t)
     \<and> n = length attr + 2 + length (takeWhile (\<lambda>c. c \<noteq> dq) (drop (length attr + 2) t)) + 1"
proof -
  have "drop (length (takeWhile (\<lambda>c. c \<noteq> dq) u)) u = [] \<longleftrightarrow> dq \<notin> set u" for u
    by (auto simp: dropWhile_eq_drop [symmetric])
  from this [of "drop (length attr + 2) t"] show ?thesis
    by (auto simp: quotedAttribute_def Let_def add.commute)
qed

lemma quotedAttribute_None:
  "quotedAttribute attr t = None \<longleftrightarrow>
     \<not> prefix (attr @ [CHR ''='', dq]) t \<or> dq \<notin> set (drop (length attr + 2) t)"
  using quotedAttribute_Some [of attr t] by (cases "quotedAttribute attr t") auto

lemma quotedAttribute_bounds:
  assumes "quotedAttribute attr t = Some n"
  shows "0 < n" and "n \<le> length t"
proof -
  from assms show "0 < n" by (simp add: quotedAttribute_Some)
  let ?u = "drop (length attr + 2) t"
  from assms have q: "dq \<in> set ?u"
    and n: "n = length attr + 2 + length (takeWhile (\<lambda>c. c \<noteq> dq) ?u) + 1"
    by (simp_all add: quotedAttribute_Some)
  from q have "length (takeWhile (\<lambda>c. c \<noteq> dq) ?u) < length ?u"
    by (rule takeWhile_shorter) simp
  with n show "n \<le> length t" by simp
qed

lemma scan_induct [case_names Nil None Empty Some]:
  assumes "P []"
    and "\<And>c cs. m (c # cs) = None \<Longrightarrow> P cs \<Longrightarrow> P (c # cs)"
    and "\<And>c cs. m (c # cs) = Some 0 \<Longrightarrow> P cs \<Longrightarrow> P (c # cs)"
    and "\<And>c cs n. m (c # cs) = Some n \<Longrightarrow> 0 < n \<Longrightarrow> P (drop n (c # cs)) \<Longrightarrow> P (c # cs)"
  shows "P s"
proof (induction s rule: length_induct)
  case (1 s)
  show ?case
  proof (cases s)
    case Nil
    with assms(1) show ?thesis by simp
  next
    case (Cons c cs)
    have cs: "P cs" using 1 Cons by simp
    show ?thesis
    proof (cases "m (c # cs)")
      case None
      with assms(2) cs Cons show ?thesis by simp
    next
      case (Some n)
      show ?thesis
      proof (cases "n = 0")
        case True
        with Some assms(3) cs Cons show ?thesis by simp
      next
        case False
        then have "P (drop n (c # cs))" using 1 Cons by simp
        with Some False assms(4) Cons show ?thesis by simp
      qed
    qed
  qed
qed

lemma replaceAllRe_noMatch: "noMatch m s \<Longrightarrow> replaceAllRe m rep s = s"
  by (induction s) simp_all

lemma str_includes_prefix: "prefix p s \<Longrightarrow> str_includes p s"
  by (cases s) simp_all

lemma str_includes_append: "str_includes p (x @ p @ y)"
  by (induction x) (simp_all add: str_includes_prefix)

lemma prefix_append_cases: "prefix q (r @ z) \<Longrightarrow> prefix q r \<or> prefix r q"
  by (auto simp: prefix_append)

lemma replaced_includes:
  "\<not> noMatch m s \<Longrightarrow> str_includes r (replaceAllRe m (\<lambda>_. r) s)"
proof (induction s rule: scan_induct [where m = m])
  case Nil
  then show ?case by (auto simp: str_includes_prefix)
next
  case (None c cs)
  then show ?case by simp
next
  case (Empty c cs)
  then show ?case by (simp add: str_includes_prefix)
next
  case (Some c cs n)
  then show ?case by (simp add: str_includes_prefix)
qed

lemma quotedAttribute_Nil: "quotedAttribute attr [] = None"
  by (simp add: quotedAttribute_None)

lemma noMatch_placeholder:
  assumes "apart r (attr @ [CHR ''='', dq])" and "noMatch (quotedAttribute attr) z"
  shows "noMatch (quotedAttribute attr) (r @ z)"
  using assms(1)
proof (induction r)
  case Nil
  with assms(2) show ?case by simp
next
  case (Cons c cs)
  then have "\<not> prefix (attr @ [CHR ''='', dq]) ((c # cs) @ z)"
    using prefix_append_cases [of "attr @ [CHR ''='', dq]" "c # cs" z] by auto
  with Cons show ?case by (simp add: quotedAttribute_None)
qed

lemma prefix_reflected:
  assumes "apart q r"
  shows "prefix q (replaceAllRe (quotedAttribute attr) (\<lambda>_. r) t) \<Longrightarrow> prefix q t"
  using assms
proof (induction q arbitrary: t)
  case Nil
  then show ?case by simp
next
  case (Cons x q)
  show ?case
  proof (cases t)
    case Nil
    with Cons.prems show ?thesis by (simp add: quotedAttribute_Nil)
  next
    case (Cons y t')
    show ?thesis
    proof (cases "quotedAttribute attr (y # t')")
      case None
      with Cons.prems Cons.IH [of t'] Cons show ?thesis by simp
    next
      case (Some n)
      then have "0 < n" by (rule quotedAttribute_bounds)
      with Some Cons Cons.prems(1)
      have "prefix (x # q) (r @ replaceAllRe (quotedAttribute attr) (\<lambda>_. r) (drop n (y # t')))"
        by simp
      then have "prefix (x # q) r \<or> prefix r (x # q)" by (rule prefix_append_cases)
      with Cons.prems(2) show ?thesis by simp
    qed
  qed
qed

lemma quotes_not_added:
  assumes "dq \<notin> set r"
  shows "length (filter (\<lambda>c. c = dq) (replaceAllRe (quotedAttribute attr) (\<lambda>_. r) s))
           \<le> length (filter (\<lambda>c. c = dq) s)"
proof (induction s rule: scan_induct [where m = "quotedAttribute attr"])
  case Nil
  then show ?case by (simp add: quotedAttribute_Nil)
next
  case (None c cs)
  then show ?case by simp
next
  case (Empty c cs)
  then show ?case using quotedAttribute_bounds(1) by blast
next
  case (Some c cs n)
  let ?f = "replaceAllRe (quotedAttribute attr) (\<lambda>_. r)"
  let ?k = "\<lambda>s. length (filter (\<lambda>c. c = dq) s)"
  have "?k (take n (c # cs) @ drop n (c # cs)) = ?k (take n (c # cs)) + ?k (drop n (c # cs))"
    by (simp only: filter_append length_append)
  then have d: "?k (drop n (c # cs)) \<le> ?k (c # cs)"
    by (simp only: append_take_drop_id)
  have r: "?k r = 0" using assms by (auto simp: filter_empty_conv)
  have "?f (c # cs) = r @ ?f (drop n (c # cs))" using Some by simp
  then have "?k (?f (c # cs)) = ?k r + ?k (?f (drop n (c # cs)))"
    by (simp only: filter_append length_append)
  with r Some.IH d show ?case by linarith
qed

lemma replaced_noMatch:
  assumes r: "dq \<notin> set r"
    and rp: "apart r (attr @ [CHR ''='', dq])" and pr: "apart (attr @ [CHR ''='', dq]) r"
  shows "noMatch (quotedAttribute attr) (replaceAllRe (quotedAttribute attr) (\<lambda>_. r) s)"
proof (induction s rule: scan_induct [where m = "quotedAttribute attr"])
  case Nil
  then show ?case by (simp add: quotedAttribute_Nil)
next
  case (None c cs)
  let ?f = "replaceAllRe (quotedAttribute attr) (\<lambda>_. r)"
  let ?k = "\<lambda>s. length (filter (\<lambda>c. c = dq) s)"
  let ?p = "attr @ [CHR ''='', dq]"
  from None have f: "?f (c # cs) = c # ?f cs" by simp
  have "quotedAttribute attr (?f (c # cs)) = None"
  proof (rule ccontr)
    assume "quotedAttribute attr (?f (c # cs)) \<noteq> None"
    then have pf: "prefix ?p (?f (c # cs))" and qf: "dq \<in> set (drop (length ?p) (?f (c # cs)))"
      by (simp_all add: quotedAttribute_None)
    from pf have ps: "prefix ?p (c # cs)" by (rule prefix_reflected [OF pr])
    with None have qs: "dq \<notin> set (drop (length ?p) (c # cs))"
      by (simp add: quotedAttribute_None)
    from ps have s: "c # cs = ?p @ drop (length ?p) (c # cs)"
      by (metis append_eq_conv_conj prefix_def)
    from pf have fs: "?f (c # cs) = ?p @ drop (length ?p) (?f (c # cs))"
      by (metis append_eq_conv_conj prefix_def)
    have "?k (c # cs) = ?k ?p + ?k (drop (length ?p) (c # cs))"
      by (subst s) (simp only: filter_append length_append)
    moreover have "?k (drop (length ?p) (c # cs)) = 0"
      using qs by (auto simp: filter_empty_conv)
    moreover have "?k (?f (c # cs)) = ?k ?p + ?k (drop (length ?p) (?f (c # cs)))"
      by (subst fs) (simp only: filter_append length_append)
    moreover have "?k (?f (c # cs)) \<le> ?k (c # cs)"
      by (rule quotes_not_added [OF r])
    ultimately have "?k (drop (length ?p) (?f (c # cs))) = 0" by linarith
    then have "dq \<notin> set (drop (length ?p) (?f (c # cs)))"
      by (auto simp: filter_empty_conv)
    with qf show False by simp
  qed
  with f None.IH show ?case by simp
next
  case (Empty c cs)
  then show ?case using quotedAttribute_bounds(1) by blast
next
  case (Some c cs n)
  then show ?case by (simp add: noMatch_placeholder [OF rp])
qed

lemma replaceFirst_literal:
  "splitAtFirst p s = Some (a, b) \<Longrightarrow> replaceFirstRe (literal p) rep s = a @ rep p @ b"
proof (induction s arbitrary: a)
  case Nil
  then show ?case by (simp add: literal_def split: if_splits)
next
  case (Cons c cs)
  show ?case
  proof (cases "prefix p (c # cs)")
    case True
    then have "take (length p) (c # cs) = p"
      by (metis append_eq_conv_conj prefix_def)
    with True Cons.prems show ?thesis by (simp add: literal_def)
  next
    case False
    with Cons.prems obtain a' where "splitAtFirst p cs = Some (a', b)" and "a = c # a'"
      by (auto split: option.splits)
    with Cons.IH False show ?thesis by (simp add: literal_def)
  qed
qed

lemma replaceFirst_literal_absent:
  "\<not> str_includes p s \<Longrightarrow> replaceFirstRe (literal p) rep s = s"
  by (induction s) (auto simp: literal_def)

lemma match_includes:
  "\<not> noMatch (quotedAttribute attr) p \<Longrightarrow> str_includes (attr @ ''='') p"
proof (induction p)
  case Nil
  then show ?case by (simp add: quotedAttribute_Nil)
next
  case (Cons c cs)
  show ?case
  proof (cases "quotedAttribute attr (c # cs)")
    case None
    with Cons show ?thesis by simp
  next
    case (Some n)
    then have "prefix ((attr @ ''='') @ [dq]) (c # cs)" by (simp add: quotedAttribute_Some)
    then have "prefix (attr @ ''='') (c # cs)" by (rule append_prefixD)
    then show ?thesis by simp
  qed
qed

lemma widthProp_replaces:
  assumes "\<not> noMatch (quotedAttribute ''width'') p"
  shows "str_includes ''width='' p \<and> noMatch (quotedAttribute ''width'') (widthProp p)
         \<and> str_includes ''width={width}'' (widthProp p)"
proof -
  have i: "str_includes ''width='' p" using match_includes [OF assms] by simp
  have "noMatch (quotedAttribute ''width'') (replaceAllRe (quotedAttribute ''width'') (\<lambda>_. ''width={width}'') p)"
    by (rule replaced_noMatch) simp_all
  with i replaced_includes [OF assms, of "''width={width}''"] show ?thesis
    by (simp add: widthProp_def)
qed

lemma heightProp_replaces:
  assumes "\<not> noMatch (quotedAttribute ''height'') p"
  shows "str_includes ''height='' p \<and> noMatch (quotedAttribute ''height'') (heightProp p)
         \<and> str_includes ''height={height}'' (heightProp p)"
proof -
  have i: "str_includes ''height='' p" using match_includes [OF assms] by simp
  have "noMatch (quotedAttribute ''height'') (replaceAllRe (quotedAttribute ''height'') (\<lambda>_. ''height={height}'') p)"
    by (rule replaced_noMatch) simp_all
  with i replaced_includes [OF assms, of "''height={height}''"] show ?thesis
    by (simp add: heightProp_def)
qed

section \<open>Properties of the transformer steps\<close>

lemma rewriteMarkup_beforeTitle:
  "rewriteMarkup svg = spreadRest (removeClass (insertTitle (beforeTitle svg)))"
  by (simp add: rewriteMarkup_def beforeTitle_def)

lemma prefix_not_across:
  assumes "prefix p (x @ g # z)" and "g \<notin> set p"
  shows "prefix p x"
proof (rule ccontr)
  assume n: "\<not> prefix p x"
  with assms(1) obtain us where p: "p = x @ us" and us: "prefix us (g # z)"
    by (auto simp: prefix_append)
  from n p have "us \<noteq> []" by auto
  with us have "g \<in> set us" by (cases us) auto
  with p assms(2) show False by simp
qed

lemma splitAtFirst_prefix: "splitAtFirst p (p @ r) = Some ([], r)"
proof (cases "p @ r")
  case Nil
  then show ?thesis by simp
next
  case (Cons c cs)
  have "prefix p (c # cs)" unfolding Cons [symmetric] by simp
  then have "splitAtFirst p (c # cs) = Some ([], drop (length p) (c # cs))" by simp
  then show ?thesis unfolding Cons [symmetric] by simp
qed

lemma splitAtFirst_same_prefix:
  "splitAtFirst p (a @ p @ r) = Some (a, r) \<Longrightarrow> splitAtFirst p (a @ p @ r') = Some (a, r')"
proof (induction a)
  case Nil
  then show ?case by (simp add: splitAtFirst_prefix)
next
  case (Cons y a)
  have long: "prefix p ((y # a @ p) @ t) = prefix p (y # a @ p)" for t
  proof
    assume "prefix p ((y # a @ p) @ t)"
    then have "prefix p (y # a @ p) \<or> (\<exists>us. p = (y # a @ p) @ us \<and> prefix us t)"
      by (simp only: prefix_append)
    moreover have "p \<noteq> (y # a @ p) @ us" for us
    proof
      assume "p = (y # a @ p) @ us"
      then have "length p = length ((y # a @ p) @ us)" by simp
      then show False by simp
    qed
    ultimately show "prefix p (y # a @ p)" by blast
  next
    assume "prefix p (y # a @ p)"
    then show "prefix p ((y # a @ p) @ t)" by (rule prefix_prefix)
  qed
  from Cons.prems have np: "\<not> prefix p (y # a @ p @ r)"
    by (auto split: if_splits)
  then have "\<not> prefix p (y # a @ p @ r')" using long [of r] long [of r'] by simp
  moreover from Cons.prems np have "splitAtFirst p (a @ p @ r) = Some (a, r)"
    by (auto split: option.splits)
  ultimately show ?case using Cons.IH by simp
qed

lemma replaceFirstRe_split:
  assumes "splitAtFirst p s = Some (a, r)"
    and "\<And>t. \<not> prefix p t \<Longrightarrow> m t = None"
    and "m (p @ r) = Some n"
  shows "replaceFirstRe m rep s = a @ rep (take n (p @ r)) @ drop n (p @ r)"
  using assms(1)
proof (induction s arbitrary: a)
  case Nil
  then have "p = []" and "a = []" and "r = []" by (simp_all split: if_splits)
  with assms(3) show ?case by simp
next
  case (Cons c cs)
  show ?case
  proof (cases "prefix p (c # cs)")
    case True
    with Cons.prems have a: "a = []" and r: "r = drop (length p) (c # cs)" by auto
    from True have "c # cs = p @ drop (length p) (c # cs)"
      by (metis append_eq_conv_conj prefix_def)
    with r have eq: "p @ r = c # cs" by simp
    from assms(3) have "replaceFirstRe m rep (c # cs) = rep (take n (c # cs)) @ drop n (c # cs)"
      unfolding eq by simp
    with a show ?thesis unfolding eq by simp
  next
    case False
    with Cons.prems obtain a' where "splitAtFirst p cs = Some (a', r)" and "a = c # a'"
      by (auto split: option.splits)
    with Cons.IH False assms(2) show ?thesis by simp
  qed
qed

lemma svgOpeningTag_at:
  assumes "CHR ''>'' \<notin> set c"
  shows "svgOpeningTag (''<svg'' @ c @ ''>'' @ b) = Some (length c + 5)"
proof -
  have "takeWhile (\<lambda>x. x \<noteq> CHR ''>'') (c @ CHR ''>'' # b) = c"
    using assms by (auto simp: takeWhile_tail)
  then show ?thesis by (simp add: svgOpeningTag_def Let_def)
qed

lemma insertTitle_first:
  assumes "splitAtFirst ''<svg'' m = Some (a, c @ ''>'' @ b)" and "CHR ''>'' \<notin> set c"
  shows "insertTitle m = a @ ''<svg'' @ c @ ''>'' @ titleElement @ b"
proof -
  define x where "x = ''<svg'' @ c @ ''>''"
  have lx: "length c + 5 = length x" by (simp add: x_def)
  have xb: "''<svg'' @ c @ ''>'' @ b = x @ b" by (simp add: x_def)
  have g: "group1 x = c" by (simp add: x_def group1_def butlast_append)
  have "replaceFirstRe svgOpeningTag (\<lambda>matched. ''<svg'' @ group1 matched @ ''>'' @ titleElement) m
        = a @ (\<lambda>matched. ''<svg'' @ group1 matched @ ''>'' @ titleElement)
                (take (length c + 5) (''<svg'' @ c @ ''>'' @ b))
            @ drop (length c + 5) (''<svg'' @ c @ ''>'' @ b)"
  proof (rule replaceFirstRe_split [OF assms(1)])
    show "svgOpeningTag t = None" if "\<not> prefix ''<svg'' t" for t
      using that by (simp add: svgOpeningTag_def)
    show "svgOpeningTag (''<svg'' @ c @ ''>'' @ b) = Some (length c + 5)"
      by (rule svgOpeningTag_at [OF assms(2)])
  qed
  then have "insertTitle m = a @ (''<svg'' @ group1 x @ ''>'' @ titleElement) @ b"
    unfolding xb lx insertTitle_def by simp
  then show ?thesis by (simp add: g)
qed

lemma removeClass_Nil: "removeClass [] = []"
  by (simp add: removeClass_def quotedAttribute_Nil)

lemma removeClass_copy:
  "quotedAttribute ''class'' (y # x) = None \<Longrightarrow> removeClass (y # x) = y # removeClass x"
  by (simp add: removeClass_def)

lemma removeClass_without_c:
  "CHR ''c'' \<notin> set x \<Longrightarrow> removeClass (x @ z) = x @ removeClass z"
proof (induction x)
  case Nil
  then show ?case by simp
next
  case (Cons y x)
  then have "quotedAttribute ''class'' (y # x @ z) = None"
    by (simp add: quotedAttribute_None)
  with Cons show ?case by (simp add: removeClass_copy)
qed

lemma removeClass_before:
  assumes "\<not> str_includes ''class=\"'' x" and "g \<notin> set ''class=\"''"
  shows "removeClass (x @ g # z) = x @ removeClass (g # z)"
  using assms(1)
proof (induction x)
  case Nil
  then show ?case by simp
next
  case (Cons y x)
  then have "\<not> prefix ''class=\"'' (y # x)" by simp
  then have "\<not> prefix ''class=\"'' ((y # x) @ g # z)"
    using prefix_not_across [OF _ assms(2)] by blast
  then have "quotedAttribute ''class'' (y # x @ g # z) = None"
    by (simp add: quotedAttribute_None)
  with Cons show ?case by (simp add: removeClass_copy)
qed

lemma closedClass_drop: "closedClass s \<Longrightarrow> closedClass (drop n s)"
proof (induction s arbitrary: n)
  case Nil
  then show ?case by simp
next
  case (Cons c cs)
  then show ?case by (cases n) simp_all
qed

lemma quotedAttribute_append:
  assumes "quotedAttribute attr x = Some n"
  shows "quotedAttribute attr (x @ z) = Some n"
proof -
  let ?k = "length attr + 2"
  from assms have p: "prefix (attr @ [CHR ''='', dq]) x" and q: "dq \<in> set (drop ?k x)"
    and n: "n = ?k + length (takeWhile (\<lambda>c. c \<noteq> dq) (drop ?k x)) + 1"
    by (simp_all add: quotedAttribute_Some)
  from p have "?k \<le> length x" using prefix_length_le by fastforce
  then have d: "drop ?k (x @ z) = drop ?k x @ z" by simp
  from q have "takeWhile (\<lambda>c. c \<noteq> dq) (drop ?k x @ z) = takeWhile (\<lambda>c. c \<noteq> dq) (drop ?k x)"
    by simp
  with p q n d show ?thesis
    by (simp add: quotedAttribute_Some)
qed

lemma class_None:
  "quotedAttribute ''class'' t = None \<longleftrightarrow>
     \<not> prefix ''class=\"'' t \<or> dq \<notin> set (drop 7 t)"
proof -
  from quotedAttribute_None [of "''class''" t] show ?thesis by (simp add: eval_nat_numeral)
qed

lemma closed_unmatched:
  assumes "closedClass s" and "quotedAttribute ''class'' s = None"
  shows "\<not> prefix ''class=\"'' s"
proof
  assume p: "prefix ''class=\"'' s"
  with assms(1) have "dq \<in> set (drop 7 s)" by (cases s) simp_all
  with p have "quotedAttribute ''class'' s \<noteq> None" by (simp only: class_None) simp
  with assms(2) show False by simp
qed

lemma removeClass_closed:
  assumes "g \<notin> set ''class=\"''"
  shows "closedClass c \<Longrightarrow> removeClass (c @ g # z) = removeClass c @ removeClass (g # z)"
proof (induction c rule: scan_induct [where m = "quotedAttribute ''class''"])
  case Nil
  then show ?case by (simp add: removeClass_Nil)
next
  case (None y cs)
  from None.prems None.hyps(1) have "\<not> prefix ''class=\"'' (y # cs)"
    by (rule closed_unmatched)
  then have "\<not> prefix ''class=\"'' ((y # cs) @ g # z)"
    using prefix_not_across [OF _ assms] by blast
  then have "quotedAttribute ''class'' (y # cs @ g # z) = None"
    by (simp add: quotedAttribute_None)
  with None show ?case by (simp add: removeClass_copy)
next
  case (Empty y cs)
  then show ?case using quotedAttribute_bounds(1) by blast
next
  case (Some y cs n)
  from Some.hyps(1) have n: "n \<le> length (y # cs)" by (rule quotedAttribute_bounds)
  from Some.hyps(1) have "quotedAttribute ''class'' ((y # cs) @ g # z) = Some n"
    by (rule quotedAttribute_append)
  with Some.hyps(2) have "removeClass ((y # cs) @ g # z) = removeClass (drop n ((y # cs) @ g # z))"
    by (simp add: removeClass_def)
  also have "\<dots> = removeClass (drop n (y # cs) @ g # z)"
    using n by (simp only: drop_append) simp
  also have "\<dots> = removeClass (drop n (y # cs)) @ removeClass (g # z)"
    using Some.IH closedClass_drop [OF Some.prems] by simp
  also have "removeClass (drop n (y # cs)) = removeClass (y # cs)"
    using Some.hyps by (simp add: removeClass_def)
  finally show ?case .
qed

lemma dropWhile_keeps:
  assumes "k \<noteq> []" and "\<not> P (hd k)"
  shows "\<exists>u. dropWhile P (x @ k @ y) = u @ k @ y"
proof (cases "\<forall>c \<in> set x. P c")
  case True
  from assms obtain h t where k: "k = h # t" and "\<not> P h" by (cases k) auto
  with True have "dropWhile P (x @ k @ y) = [] @ k @ y" by (simp add: dropWhile_append)
  then show ?thesis by blast
next
  case False
  then have "dropWhile P (x @ k @ y) = dropWhile P x @ k @ y"
    by (auto simp: dropWhile_append)
  then show ?thesis by blast
qed

lemma trim_keeps:
  assumes "k \<noteq> []" and "\<not> isWhiteSpace (hd k)" and "\<not> isWhiteSpace (last k)"
  shows "\<exists>u v. trim (x @ k @ y) = u @ k @ v"
proof -
  obtain u where u: "dropWhile isWhiteSpace (x @ k @ y) = u @ k @ y"
    using dropWhile_keeps [where P = isWhiteSpace and k = k and x = x and y = y] assms(1,2)
    by blast
  have "rev k \<noteq> []" and "\<not> isWhiteSpace (hd (rev k))"
    using assms(1,3) by (simp_all add: hd_rev)
  then obtain v where v: "dropWhile isWhiteSpace (rev y @ rev k @ rev u) = v @ rev k @ rev u"
    using dropWhile_keeps [where P = isWhiteSpace and k = "rev k" and x = "rev y" and y = "rev u"]
    by blast
  have "trim (x @ k @ y) = rev (dropWhile isWhiteSpace (rev y @ rev k @ rev u))"
    by (simp add: trim_def u)
  also have "\<dots> = u @ k @ rev v" by (simp add: v)
  finally show ?thesis by blast
qed

lemma componentSource_includes:
  assumes "k \<noteq> []" and "\<not> isWhiteSpace (hd k)" and "\<not> isWhiteSpace (last k)"
  shows "str_includes k (componentSource iconName (x @ k @ y))"
proof -
  obtain u v where t: "trim (x @ k @ y) = u @ k @ v"
    using trim_keeps [where k = k and x = x and y = y] assms by blast
  have "componentSource iconName (x @ k @ y)
          = (sourceBefore iconName @ u) @ k @ (v @ sourceAfter)"
    by (simp add: componentSource_def t)
  then show ?thesis by (simp only: str_includes_append)
qed

lemma rewriteMarkup_shape:
  assumes m: "splitAtFirst ''<svg'' (beforeTitle svg) = Some (a, c @ ''>'' @ b)"
    and c: "CHR ''>'' \<notin> set c"
    and a: "\<not> str_includes ''class=\"'' a"
    and cl: "closedClass c"
  shows "rewriteMarkup svg
           = a @ ''<svg {...rest}'' @ removeClass c @ ''>'' @ titleElement @ removeClass b"
proof -
  have t: "CHR ''c'' \<notin> set (''>'' @ titleElement)"
    by (simp add: titleElement_def)
  have "insertTitle (beforeTitle svg) = a @ ''<svg'' @ c @ ''>'' @ titleElement @ b"
    by (rule insertTitle_first [OF m c])
  then have "removeClass (insertTitle (beforeTitle svg))
               = removeClass (a @ CHR ''<'' # (''svg'' @ c @ ''>'' @ titleElement @ b))"
    by simp
  also have "\<dots> = a @ removeClass (''<svg'' @ (c @ CHR ''>'' # (titleElement @ b)))"
    using removeClass_before [OF a, of "CHR ''<''"] by simp
  also have "\<dots> = a @ ''<svg'' @ removeClass (c @ CHR ''>'' # (titleElement @ b))"
    by (subst removeClass_without_c) simp_all
  also have "\<dots> = a @ ''<svg'' @ removeClass c @ removeClass ((''>'' @ titleElement) @ b)"
    using removeClass_closed [OF _ cl, of "CHR ''>''"] by simp
  also have "\<dots> = a @ ''<svg'' @ removeClass c @ (''>'' @ titleElement) @ removeClass b"
    by (subst removeClass_without_c [OF t]) simp
  finally have r: "removeClass (insertTitle (beforeTitle svg))
        = a @ ''<svg'' @ (removeClass c @ ''>'' @ titleElement @ removeClass b)"
    by simp
  from m have "beforeTitle svg = a @ ''<svg'' @ c @ ''>'' @ b"
    by (rule splitAtFirst_Some)
  with m have "splitAtFirst ''<svg'' (a @ ''<svg'' @ c @ ''>'' @ b) = Some (a, c @ ''>'' @ b)"
    by simp
  then have "splitAtFirst ''<svg'' (a @ ''<svg'' @ (removeClass c @ ''>'' @ titleElement @ removeClass b))
        = Some (a, removeClass c @ ''>'' @ titleElement @ removeClass b)"
    by (rule splitAtFirst_same_prefix)
  then have "spreadRest (a @ ''<svg'' @ (removeClass c @ ''>'' @ titleElement @ removeClass b))
        = a @ ''<svg {...rest}'' @ removeClass c @ ''>'' @ titleElement @ removeClass b"
    unfolding spreadRest_def by (rule replaceFirst_literal)
  with r show ?thesis by (simp only: rewriteMarkup_beforeTitle)
qed

section \<open>The claims\<close>

text \<open>
  C1, on the code as it is. For the descriptor with file name \<^verbatim>\<open>check-icon\<close> and the
  TSX flag set, \<open>transform\<close> derives the component name \<^verbatim>\<open>CheckIcon\<close> and hands it to
  \<open>processSvgForReact\<close>, but the source that comes back declares
  \<^verbatim>\<open>export default function BootstrapHeart(\<close> and does not contain \<^verbatim>\<open>CheckIcon\<close>: the
  template has the function name written out, and \<open>processSvgForReact\<close> returns the same
  text for every component name.
\<close>

theorem C1_component_name:
  \<open>componentNameOf (filename checkIcon) = ''CheckIcon''
   \<and> transform checkIcon = Inr (checkIcon\<lparr>svgText := Some (componentSource ''check''
         ''<svg {...rest} height={height} width={width}>\<newline>        <title>{title}</title></svg>'')\<rparr>)
   \<and> str_includes ''export default function BootstrapHeart('' (componentSource ''check''
         ''<svg {...rest} height={height} width={width}>\<newline>        <title>{title}</title></svg>'')
   \<and> \<not> str_includes ''CheckIcon'' (componentSource ''check''
         ''<svg {...rest} height={height} width={width}>\<newline>        <title>{title}</title></svg>'')
   \<and> processSvgForReact this componentName = processSvgForReact this []\<close>
proof (intro conjI)
  show "componentNameOf (filename checkIcon) = ''CheckIcon''"
    by code_simp
  show \<open>transform checkIcon = Inr (checkIcon\<lparr>svgText := Some (componentSource ''check''
         ''<svg {...rest} height={height} width={width}>\<newline>        <title>{title}</title></svg>'')\<rparr>)\<close>
    by code_simp
  show \<open>str_includes ''export default function BootstrapHeart('' (componentSource ''check''
         ''<svg {...rest} height={height} width={width}>\<newline>        <title>{title}</title></svg>'')\<close>
    by code_simp
  show \<open>\<not> str_includes ''CheckIcon'' (componentSource ''check''
         ''<svg {...rest} height={height} width={width}>\<newline>        <title>{title}</title></svg>'')\<close>
    by code_simp
  show "processSvgForReact this componentName = processSvgForReact this []"
    by (simp add: processSvgForReact_def)
qed

text \<open>
  C2, as stated, fails: when the network answers with a success whose body is empty, the
  first call of \<open>grabSvgText\<close> succeeds and stores the empty text, and the second call
  sends the request again, so the text is fetched twice.
\<close>

theorem C2_counterexample:
  "fst (grabSvgText (answering (okWith [])) arrowRight emptyWorld) = Inr ()
   \<and> svgText (fst (snd (grabSvgText (answering (okWith [])) arrowRight emptyWorld))) = Some []
   \<and> fetched (snd (snd (grabSvgTextTwice (answering (okWith [])) (answering (okWith []))
        arrowRight emptyWorld)))
      = [''https://raw.githubusercontent.com/tailwindlabs/heroicons/master/optimized/24/outline/arrow-right.svg'',
         ''https://raw.githubusercontent.com/tailwindlabs/heroicons/master/optimized/24/outline/arrow-right.svg'']"
  by code_simp

text \<open>
  C2, amended. For every descriptor whose SVG text is not empty, \<open>grabSvgText\<close> sends no
  request and changes neither the descriptor nor the world. Hence when a call leaves a
  descriptor with a non-empty SVG text, a second call with any network changes nothing,
  and the two calls together have sent at most one request.
\<close>

theorem C2_truthy_text_no_fetch:
  "(truthy (svgText this) \<longrightarrow> grabSvgText fetch this w = (Inr (), this, w))
   \<and> (grabSvgText fetch this w = (result, this1, w1) \<and> truthy (svgText this1) \<longrightarrow>
        grabSvgTextTwice fetch fetch2 this w = (Inr (), this1, w1)
        \<and> length (fetched w1) \<le> Suc (length (fetched w)))"
  by (auto simp: grabSvgText_def grabSvgTextTwice_def logError_def Let_def split: sum.splits if_splits)

theorem C2_truthy_text_no_fetch_witness:
  "truthy (svgText heart)
   \<and> grabSvgText (answering notFound) heart emptyWorld = (Inr (), heart, emptyWorld)
   \<and> grabSvgText (answering (okWith ''<svg></svg>'')) arrowRight emptyWorld
       = (Inr (), arrowRight\<lparr>svgText := Some ''<svg></svg>''\<rparr>,
          emptyWorld\<lparr>fetched := [''https://raw.githubusercontent.com/tailwindlabs/heroicons/master/optimized/24/outline/arrow-right.svg'']\<rparr>)
   \<and> truthy (svgText (arrowRight\<lparr>svgText := Some ''<svg></svg>''\<rparr>))
   \<and> grabSvgTextTwice (answering (okWith ''<svg></svg>'')) (answering notFound) arrowRight emptyWorld
       = (Inr (), arrowRight\<lparr>svgText := Some ''<svg></svg>''\<rparr>,
          emptyWorld\<lparr>fetched := [''https://raw.githubusercontent.com/tailwindlabs/heroicons/master/optimized/24/outline/arrow-right.svg'']\<rparr>)"
proof -
  have t: "truthy (svgText heart)"
    and t': "truthy (svgText (arrowRight\<lparr>svgText := Some ''<svg></svg>''\<rparr>))"
    by (simp_all add: truthy_def heart_def)
  have u: "buildUrl arrowRight = ''https://raw.githubusercontent.com/tailwindlabs/heroicons/master/optimized/24/outline/arrow-right.svg''"
    by code_simp
  have n: "\<not> truthy (svgText arrowRight)"
    by (simp add: truthy_def arrowRight_def)
  have g: "grabSvgText (answering (okWith ''<svg></svg>'')) arrowRight emptyWorld
       = (Inr (), arrowRight\<lparr>svgText := Some ''<svg></svg>''\<rparr>,
          emptyWorld\<lparr>fetched := [''https://raw.githubusercontent.com/tailwindlabs/heroicons/master/optimized/24/outline/arrow-right.svg'']\<rparr>)"
    by (simp add: grabSvgText_def n u answering_def okWith_def emptyWorld_def)
  show ?thesis
    using t t' g C2_truthy_text_no_fetch [of heart "answering notFound" emptyWorld]
      C2_truthy_text_no_fetch [of arrowRight "answering (okWith ''<svg></svg>'')" emptyWorld
        "Inr ()" "arrowRight\<lparr>svgText := Some ''<svg></svg>''\<rparr>"
        "emptyWorld\<lparr>fetched := [''https://raw.githubusercontent.com/tailwindlabs/heroicons/master/optimized/24/outline/arrow-right.svg'']\<rparr>"
        "answering notFound"]
    by simp
qed

text \<open>
  C3. When \<open>grabSvgText\<close> sends a request (the descriptor has no SVG text yet) and the
  response has a non-success status, it fails with an error whose message names the icon,
  the URL, the status code and the status text, the same message has been written to the
  error log, and the descriptor is unchanged. When the response is a success and its body
  can be read, the body is stored as the SVG text of the descriptor.
\<close>

theorem C3_grabSvgText_response:
  assumes "\<not> truthy (svgText this)" and "fetch (buildUrl this) = Inr response"
  shows "(\<not> ok response \<longrightarrow>
           grabSvgText fetch this w =
             (Inl (Error (''Failed to download icon '' @ name this @ '' from '' @ buildUrl this
                          @ '': '' @ natToString (status response) @ '' '' @ statusText response)),
              this,
              w\<lparr>fetched := fetched w @ [buildUrl this],
                warned := warned w @ [''Failed to download icon '' @ name this @ '' from ''
                          @ buildUrl this @ '': '' @ natToString (status response) @ '' ''
                          @ statusText response]\<rparr>))
       \<and> (ok response \<and> bodyText response = Inr data \<longrightarrow>
           grabSvgText fetch this w =
             (Inr (), this\<lparr>svgText := Some data\<rparr>, w\<lparr>fetched := fetched w @ [buildUrl this]\<rparr>))"
  using assms by (simp add: grabSvgText_def downloadError_def logError_def Let_def)

theorem C3_grabSvgText_response_witness:
  "\<not> truthy (svgText arrowRight)
   \<and> answering notFound (buildUrl arrowRight) = Inr notFound \<and> \<not> ok notFound
   \<and> grabSvgText (answering notFound) arrowRight emptyWorld =
       (Inl (Error ''Failed to download icon arrow-right from https://raw.githubusercontent.com/tailwindlabs/heroicons/master/optimized/24/outline/arrow-right.svg: 404 Not Found''),
        arrowRight,
        emptyWorld\<lparr>fetched := [''https://raw.githubusercontent.com/tailwindlabs/heroicons/master/optimized/24/outline/arrow-right.svg''],
          warned := [''Failed to download icon arrow-right from https://raw.githubusercontent.com/tailwindlabs/heroicons/master/optimized/24/outline/arrow-right.svg: 404 Not Found'']\<rparr>)
   \<and> answering (okWith ''<svg></svg>'') (buildUrl arrowRight) = Inr (okWith ''<svg></svg>'')
   \<and> ok (okWith ''<svg></svg>'') \<and> bodyText (okWith ''<svg></svg>'') = Inr ''<svg></svg>''
   \<and> grabSvgText (answering (okWith ''<svg></svg>'')) arrowRight emptyWorld =
       (Inr (), arrowRight\<lparr>svgText := Some ''<svg></svg>''\<rparr>,
        emptyWorld\<lparr>fetched := [''https://raw.githubusercontent.com/tailwindlabs/heroicons/master/optimized/24/outline/arrow-right.svg'']\<rparr>)"
proof -
  have t: "\<not> truthy (svgText arrowRight)"
    by (simp add: truthy_def arrowRight_def)
  have u: "buildUrl arrowRight = ''https://raw.githubusercontent.com/tailwindlabs/heroicons/master/optimized/24/outline/arrow-right.svg''"
    by code_simp
  have n: "natToString 404 = ''404''"
    by code_simp
  have nm: "name arrowRight = ''arrow-right''"
    by (simp add: arrowRight_def)
  have ew: "fetched emptyWorld = []" "warned emptyWorld = []"
    by (simp_all add: emptyWorld_def)
  have nf: "\<not> ok notFound" "status notFound = 404" "statusText notFound = ''Not Found''"
    by (simp_all add: notFound_def)
  have okw: "ok (okWith ''<svg></svg>'')" "bodyText (okWith ''<svg></svg>'') = Inr ''<svg></svg>''"
    by (simp_all add: okWith_def)
  have a: "answering notFound (buildUrl arrowRight) = Inr notFound"
    and b: "answering (okWith ''<svg></svg>'') (buildUrl arrowRight) = Inr (okWith ''<svg></svg>'')"
    by (simp_all add: answering_def)
  show ?thesis
    using C3_grabSvgText_response [where this = arrowRight and fetch = "answering notFound"
        and response = notFound and w = emptyWorld, OF t a]
      C3_grabSvgText_response [where this = arrowRight and fetch = "answering (okWith ''<svg></svg>'')"
        and response = "okWith ''<svg></svg>''" and w = emptyWorld and data = "''<svg></svg>''", OF t b]
      t a b
    by (simp add: u n nm ew nf okw)
qed

text \<open>
  C4, as stated, fails. For \<^verbatim>\<open><svg class="a>b"></svg>\<close> the title lands inside the value
  of the class attribute, which the next step removes, so the component source has no
  \<^verbatim>\<open><title>{title}</title>\<close>. For a root element written with a namespace prefix,
  \<^verbatim>\<open><s:svg ...>\<close>, the text has no \<^verbatim>\<open><svg\<close>, and the source has neither the title nor
  \<^verbatim>\<open>{...rest}\<close>.
\<close>

theorem C4_counterexample:
  \<open>processSvgForReact classWithGt ''Heart''
     = Inr (componentSource ''heart'' ''<svg {...rest} height={height} width={width} ></svg>'')
   \<and> \<not> str_includes ''<title>{title}</title>''
       (componentSource ''heart'' ''<svg {...rest} height={height} width={width} ></svg>'')
   \<and> processSvgForReact prefixedRoot ''Heart''
     = Inr (componentSource ''heart'' ''<s:svg xmlns:s="http://www.w3.org/2000/svg"></s:svg>'')
   \<and> \<not> str_includes ''<title>{title}</title>''
       (componentSource ''heart'' ''<s:svg xmlns:s="http://www.w3.org/2000/svg"></s:svg>'')
   \<and> \<not> str_includes ''{...rest}''
       (componentSource ''heart'' ''<s:svg xmlns:s="http://www.w3.org/2000/svg"></s:svg>'')\<close>
  by code_simp

text \<open>
  C4, amended. Let the markup that reaches the title step begin, at its first
  \<^verbatim>\<open><svg\<close>, an opening tag with the attribute text \<open>c\<close> up to the first \<^verbatim>\<open>>\<close>, let there
  be no \<^verbatim>\<open>class="\<close> before that tag, and let every \<^verbatim>\<open>class="\<close> inside \<open>c\<close> be followed
  by a double quote inside \<open>c\<close>. Then the rewritten markup is the text before the tag,
  \<^verbatim>\<open><svg {...rest}\<close>, the attributes without their class, \<^verbatim>\<open>>\<close>, a line break and eight
  spaces, \<^verbatim>\<open><title>{title}</title>\<close>, and the rest without its class attributes; and the
  component source contains the tag with \<^verbatim>\<open>{...rest}\<close> and the title right behind it.
\<close>

theorem C4_title_and_rest:
  assumes "svgText this = Some svg" and "svg \<noteq> []"
    and "splitAtFirst ''<svg'' (beforeTitle svg) = Some (a, c @ ''>'' @ b)"
    and "CHR ''>'' \<notin> set c"
    and "\<not> str_includes ''class=\"'' a"
    and "closedClass c"
  shows "rewriteMarkup svg
           = a @ ''<svg {...rest}'' @ removeClass c @ ''>'' @ titleElement @ removeClass b
         \<and> processSvgForReact this componentName
           = Inr (componentSource (name this) (rewriteMarkup svg))
         \<and> str_includes (''<svg {...rest}'' @ removeClass c @ ''>'' @ titleElement)
              (componentSource (name this) (rewriteMarkup svg))"
proof -
  let ?k = "''<svg {...rest}'' @ removeClass c @ ''>'' @ titleElement"
  have r: "rewriteMarkup svg = a @ ?k @ removeClass b"
    using rewriteMarkup_shape [OF assms(3-6)] by simp
  have "last ?k = CHR ''>''" by (simp add: titleElement_def)
  then have "str_includes ?k (componentSource (name this) (a @ ?k @ removeClass b))"
    by (intro componentSource_includes) (simp_all add: isWhiteSpace_def code_def)
  with r assms(1,2) show ?thesis
    by (simp add: processSvgForReact_def)
qed

theorem C4_title_and_rest_witness:
  \<open>svgText bootstrapHeart = Some bootstrapSvg \<and> bootstrapSvg \<noteq> []
   \<and> splitAtFirst ''<svg'' (beforeTitle bootstrapSvg)
       = Some ([], bootstrapAttributes @ ''>'' @ bootstrapBody)
   \<and> CHR ''>'' \<notin> set bootstrapAttributes
   \<and> \<not> str_includes ''class="'' []
   \<and> closedClass bootstrapAttributes
   \<and> rewriteMarkup bootstrapSvg
       = ''<svg {...rest}'' @ removeClass bootstrapAttributes @ ''>'' @ titleElement
         @ removeClass bootstrapBody
   \<and> rewriteMarkup bootstrapSvg
       = ''<svg {...rest} height={height} width={width}  viewBox="0 0 16 16">\<newline>        <title>{title}</title><path d="M8 2z"/></svg>''
   \<and> processSvgForReact bootstrapHeart ''Heart''
       = Inr (componentSource (name bootstrapHeart) (rewriteMarkup bootstrapSvg))
   \<and> str_includes (''<svg {...rest}'' @ removeClass bootstrapAttributes @ ''>'' @ titleElement)
        (componentSource (name bootstrapHeart) (rewriteMarkup bootstrapSvg))\<close>
proof -
  have h1: "svgText bootstrapHeart = Some bootstrapSvg" by (simp add: bootstrapHeart_def)
  have h2: "bootstrapSvg \<noteq> []" by (simp add: bootstrapSvg_def)
  have h3: "splitAtFirst ''<svg'' (beforeTitle bootstrapSvg)
       = Some ([], bootstrapAttributes @ ''>'' @ bootstrapBody)" by code_simp
  have h4: "CHR ''>'' \<notin> set bootstrapAttributes" by (simp add: bootstrapAttributes_def)
  have h5: "\<not> str_includes ''class=\"'' []" by simp
  have h6: "closedClass bootstrapAttributes" by code_simp
  have e: \<open>rewriteMarkup bootstrapSvg
       = ''<svg {...rest} height={height} width={width}  viewBox="0 0 16 16">\<newline>        <title>{title}</title><path d="M8 2z"/></svg>''\<close>
    by code_simp
  note t = C4_title_and_rest [OF h1 h2 h3 h4 h5 h6, of "''Heart''"]
  from t have t1: "rewriteMarkup bootstrapSvg
       = ''<svg {...rest}'' @ removeClass bootstrapAttributes @ ''>'' @ titleElement
         @ removeClass bootstrapBody"
    by simp
  from t have t2: "processSvgForReact bootstrapHeart ''Heart''
       = Inr (componentSource (name bootstrapHeart) (rewriteMarkup bootstrapSvg))"
    by (rule conjunct2 [THEN conjunct1])
  from t have t3: "str_includes (''<svg {...rest}'' @ removeClass bootstrapAttributes @ ''>'' @ titleElement)
        (componentSource (name bootstrapHeart) (rewriteMarkup bootstrapSvg))"
    by (rule conjunct2 [THEN conjunct2])
  show ?thesis
    by (intro conjI) (fact h1 h2 h3 h4 h5 h6 e t1 t2 t3)+
qed

text \<open>
  C5, as stated, fails: in \<^verbatim>\<open><svg width='24'></svg>\<close> there is no \<^verbatim>\<open>width="..."\<close>
  attribute, yet the width step leaves the text as it is and the rewritten markup has no
  \<^verbatim>\<open>width={width}\<close>, because the text contains \<^verbatim>\<open>width=\<close>.
\<close>

theorem C5_counterexample:
  \<open>noMatch (quotedAttribute ''width'')
      (camelCaseAttributes (removeXmlDeclaration ''<svg width='24'></svg>''))
   \<and> widthProp (camelCaseAttributes (removeXmlDeclaration ''<svg width='24'></svg>''))
       = ''<svg width='24'></svg>''
   \<and> \<not> str_includes ''width={width}'' (rewriteMarkup ''<svg width='24'></svg>'')\<close>
  by code_simp

text \<open>
  C5, amended. If the text has a \<^verbatim>\<open>width="..."\<close> attribute, then it contains
  \<^verbatim>\<open>width=\<close>, and after the width step no \<^verbatim>\<open>width="..."\<close> is left and
  \<^verbatim>\<open>width={width}\<close> is there. If the text contains \<^verbatim>\<open>width=\<close> but no
  \<^verbatim>\<open>width="..."\<close>, the step changes nothing. If the text does not contain \<^verbatim>\<open>width=\<close>,
  the step puts \<^verbatim>\<open> width={width}\<close> behind the first \<^verbatim>\<open><svg\<close>, and changes nothing when
  there is no \<^verbatim>\<open><svg\<close>. The same holds for the height. For \<^verbatim>\<open><svg width="24" height="24">\<close> the component source contains
  \<^verbatim>\<open>width={width}\<close> and \<^verbatim>\<open>height={height}\<close> and nowhere \<^verbatim>\<open>24\<close>.
\<close>

theorem C5_width_and_height:
  \<open>(\<not> noMatch (quotedAttribute ''width'') p \<longrightarrow>
      str_includes ''width='' p \<and> noMatch (quotedAttribute ''width'') (widthProp p)
      \<and> str_includes ''width={width}'' (widthProp p))
   \<and> (str_includes ''width='' p \<and> noMatch (quotedAttribute ''width'') p \<longrightarrow> widthProp p = p)
   \<and> (\<not> str_includes ''width='' p \<and> splitAtFirst ''<svg'' p = Some (a, b) \<longrightarrow>
      widthProp p = a @ ''<svg width={width}'' @ b)
   \<and> (\<not> str_includes ''width='' p \<and> \<not> str_includes ''<svg'' p \<longrightarrow> widthProp p = p)
   \<and> (\<not> noMatch (quotedAttribute ''height'') p \<longrightarrow>
      str_includes ''height='' p \<and> noMatch (quotedAttribute ''height'') (heightProp p)
      \<and> str_includes ''height={height}'' (heightProp p))
   \<and> (str_includes ''height='' p \<and> noMatch (quotedAttribute ''height'') p \<longrightarrow> heightProp p = p)
   \<and> (\<not> str_includes ''height='' p \<and> splitAtFirst ''<svg'' p = Some (a, b) \<longrightarrow>
      heightProp p = a @ ''<svg height={height}'' @ b)
   \<and> (\<not> str_includes ''height='' p \<and> \<not> str_includes ''<svg'' p \<longrightarrow> heightProp p = p)
   \<and> processSvgForReact sized componentName
       = Inr (componentSource ''heart''
           ''<svg {...rest} width={width} height={height}>\<newline>        <title>{title}</title>'')
   \<and> str_includes ''width={width}'' (componentSource ''heart''
           ''<svg {...rest} width={width} height={height}>\<newline>        <title>{title}</title>'')
   \<and> str_includes ''height={height}'' (componentSource ''heart''
           ''<svg {...rest} width={width} height={height}>\<newline>        <title>{title}</title>'')
   \<and> \<not> str_includes ''24'' (componentSource ''heart''
           ''<svg {...rest} width={width} height={height}>\<newline>        <title>{title}</title>'')\<close>
proof (intro conjI impI)
  assume "\<not> noMatch (quotedAttribute ''width'') p"
  from widthProp_replaces [OF this]
  show "str_includes ''width='' p" and "noMatch (quotedAttribute ''width'') (widthProp p)"
    and "str_includes ''width={width}'' (widthProp p)" by simp_all
next
  assume "str_includes ''width='' p \<and> noMatch (quotedAttribute ''width'') p"
  then show "widthProp p = p" by (simp add: widthProp_def replaceAllRe_noMatch)
next
  assume "\<not> str_includes ''width='' p \<and> splitAtFirst ''<svg'' p = Some (a, b)"
  then show "widthProp p = a @ ''<svg width={width}'' @ b"
    by (simp add: widthProp_def replaceFirst_literal)
next
  assume "\<not> str_includes ''width='' p \<and> \<not> str_includes ''<svg'' p"
  then show "widthProp p = p"
    by (simp add: widthProp_def replaceFirst_literal_absent)
next
  assume "\<not> noMatch (quotedAttribute ''height'') p"
  from heightProp_replaces [OF this]
  show "str_includes ''height='' p" and "noMatch (quotedAttribute ''height'') (heightProp p)"
    and "str_includes ''height={height}'' (heightProp p)" by simp_all
next
  assume "str_includes ''height='' p \<and> noMatch (quotedAttribute ''height'') p"
  then show "heightProp p = p" by (simp add: heightProp_def replaceAllRe_noMatch)
next
  assume "\<not> str_includes ''height='' p \<and> splitAtFirst ''<svg'' p = Some (a, b)"
  then show "heightProp p = a @ ''<svg height={height}'' @ b"
    by (simp add: heightProp_def replaceFirst_literal)
next
  assume "\<not> str_includes ''height='' p \<and> \<not> str_includes ''<svg'' p"
  then show "heightProp p = p"
    by (simp add: heightProp_def replaceFirst_literal_absent)
next
  have \<open>rewriteMarkup ''<svg width="24" height="24">''
        = ''<svg {...rest} width={width} height={height}>\<newline>        <title>{title}</title>''\<close>
    by code_simp
  then show \<open>processSvgForReact sized componentName
       = Inr (componentSource ''heart''
           ''<svg {...rest} width={width} height={height}>\<newline>        <title>{title}</title>'')\<close>
    by (simp add: processSvgForReact_def sized_def heart_def arrowRight_def)
next
  show \<open>str_includes ''width={width}'' (componentSource ''heart''
           ''<svg {...rest} width={width} height={height}>\<newline>        <title>{title}</title>'')\<close>
    by code_simp
next
  show \<open>str_includes ''height={height}'' (componentSource ''heart''
           ''<svg {...rest} width={width} height={height}>\<newline>        <title>{title}</title>'')\<close>
    by code_simp
next
  show \<open>\<not> str_includes ''24'' (componentSource ''heart''
           ''<svg {...rest} width={width} height={height}>\<newline>        <title>{title}</title>'')\<close>
    by code_simp
qed

theorem C5_width_and_height_witness:
  \<open>\<not> noMatch (quotedAttribute ''width'') doubleQuoted
   \<and> noMatch (quotedAttribute ''width'') (widthProp doubleQuoted)
   \<and> widthProp doubleQuoted = ''<svg width={width} height="24">''
   \<and> \<not> noMatch (quotedAttribute ''height'') doubleQuoted
   \<and> noMatch (quotedAttribute ''height'') (heightProp doubleQuoted)
   \<and> heightProp doubleQuoted = ''<svg width="24" height={height}>''
   \<and> str_includes ''width='' singleQuoted \<and> noMatch (quotedAttribute ''width'') singleQuoted
   \<and> widthProp singleQuoted = singleQuoted
   \<and> str_includes ''height='' singleQuoted \<and> noMatch (quotedAttribute ''height'') singleQuoted
   \<and> heightProp singleQuoted = singleQuoted
   \<and> \<not> str_includes ''width='' unsized \<and> \<not> str_includes ''height='' unsized
   \<and> splitAtFirst ''<svg'' unsized = Some ([], '' viewBox="0 0 24 24"></svg>'')
   \<and> widthProp unsized = ''<svg width={width} viewBox="0 0 24 24"></svg>''
   \<and> heightProp unsized = ''<svg height={height} viewBox="0 0 24 24"></svg>''
   \<and> \<not> str_includes ''<svg'' ''<s:svg></s:svg>''
   \<and> \<not> str_includes ''width='' ''<s:svg></s:svg>''
   \<and> \<not> str_includes ''height='' ''<s:svg></s:svg>''
   \<and> widthProp ''<s:svg></s:svg>'' = ''<s:svg></s:svg>''
   \<and> heightProp ''<s:svg></s:svg>'' = ''<s:svg></s:svg>''\<close>
proof -
  have x: "\<not> str_includes ''<svg'' ''<s:svg></s:svg>''"
    "\<not> str_includes ''width='' ''<s:svg></s:svg>''"
    "\<not> str_includes ''height='' ''<s:svg></s:svg>''"
    by code_simp+
  have xw: "widthProp ''<s:svg></s:svg>'' = ''<s:svg></s:svg>''"
    and xh: "heightProp ''<s:svg></s:svg>'' = ''<s:svg></s:svg>''"
    using C5_width_and_height [of "''<s:svg></s:svg>''"] x by blast+
  have d: "\<not> noMatch (quotedAttribute ''width'') doubleQuoted"
    "\<not> noMatch (quotedAttribute ''height'') doubleQuoted"
    \<open>widthProp doubleQuoted = ''<svg width={width} height="24">''\<close>
    \<open>heightProp doubleQuoted = ''<svg width="24" height={height}>''\<close>
    by code_simp+
  have s: "str_includes ''width='' singleQuoted" "noMatch (quotedAttribute ''width'') singleQuoted"
    "str_includes ''height='' singleQuoted" "noMatch (quotedAttribute ''height'') singleQuoted"
    by code_simp+
  have u: "\<not> str_includes ''width='' unsized" "\<not> str_includes ''height='' unsized"
    \<open>splitAtFirst ''<svg'' unsized = Some ([], '' viewBox="0 0 24 24"></svg>'')\<close>
    by code_simp+
  have "noMatch (quotedAttribute ''width'') (widthProp doubleQuoted)"
    and "noMatch (quotedAttribute ''height'') (heightProp doubleQuoted)"
    using C5_width_and_height [of doubleQuoted] d(1,2) by blast+
  moreover have "widthProp singleQuoted = singleQuoted" and "heightProp singleQuoted = singleQuoted"
    using C5_width_and_height [of singleQuoted] s by blast+
  moreover have \<open>widthProp unsized = [] @ ''<svg width={width}'' @ '' viewBox="0 0 24 24"></svg>''\<close>
    and \<open>heightProp unsized = [] @ ''<svg height={height}'' @ '' viewBox="0 0 24 24"></svg>''\<close>
    using C5_width_and_height [of unsized "[]" \<open>'' viewBox="0 0 24 24"></svg>''\<close>] u by blast+
  ultimately show ?thesis using d s u x xw xh by simp
qed

text \<open>
  C6. For the heroicons repository (owner \<^verbatim>\<open>tailwindlabs\<close>, branch \<^verbatim>\<open>master\<close>, path
  template \<^verbatim>\<open>optimized/24/{variant}/{iconName}.svg\<close>), variant \<^verbatim>\<open>outline\<close> and name
  \<^verbatim>\<open>arrow-right\<close>, \<open>buildUrl\<close> returns exactly the URL below; and for every
  descriptor whose repository has no branch, the URL starts with the host, the owner, the
  repository and the branch segment \<^verbatim>\<open>main\<close>.
\<close>

theorem C6_buildUrl:
  "buildUrl arrowRight
     = ''https://raw.githubusercontent.com/tailwindlabs/heroicons/master/optimized/24/outline/arrow-right.svg''
   \<and> (branch (repository this) = None \<longrightarrow>
        prefix (''https://raw.githubusercontent.com/'' @ owner (repository this) @ ''/''
                @ repo (repository this) @ ''/main/'') (buildUrl this))"
proof -
  have "buildUrl arrowRight
     = ''https://raw.githubusercontent.com/tailwindlabs/heroicons/master/optimized/24/outline/arrow-right.svg''"
    by code_simp
  moreover have "branch (repository this) = None \<Longrightarrow>
        prefix (''https://raw.githubusercontent.com/'' @ owner (repository this) @ ''/''
                @ repo (repository this) @ ''/main/'') (buildUrl this)"
    by (simp add: buildUrl_def orElse_def Let_def)
  ultimately show ?thesis by blast
qed

theorem C6_buildUrl_witness:
  "branch (repository (arrowRight\<lparr>repository := heroicons\<lparr>branch := None\<rparr>\<rparr>)) = None
   \<and> prefix ''https://raw.githubusercontent.com/tailwindlabs/heroicons/main/''
        (buildUrl (arrowRight\<lparr>repository := heroicons\<lparr>branch := None\<rparr>\<rparr>))
   \<and> buildUrl (arrowRight\<lparr>repository := heroicons\<lparr>branch := None\<rparr>\<rparr>)
        = ''https://raw.githubusercontent.com/tailwindlabs/heroicons/main/optimized/24/outline/arrow-right.svg''"
proof -
  have e: "buildUrl (arrowRight\<lparr>repository := heroicons\<lparr>branch := None\<rparr>\<rparr>)
        = ''https://raw.githubusercontent.com/tailwindlabs/heroicons/main/optimized/24/outline/arrow-right.svg''"
    by code_simp
  show ?thesis
    using C6_buildUrl [of "arrowRight\<lparr>repository := heroicons\<lparr>branch := None\<rparr>\<rparr>"] e
    by (simp add: heroicons_def)
qed

text \<open>
  C7. For every input, \<open>santizeFilename\<close> returns a string that is lower case (lower-casing
  it again changes nothing), has no white space, and consists of code units of
  \<^verbatim>\<open>[a-z0-9-]\<close> only. It is idempotent, it returns a string of that class unchanged,
  and it maps \<^verbatim>\<open>arrow-right\<close> to itself.
\<close>

theorem C7_santizeFilename:
  "toLowerCase (santizeFilename s) = santizeFilename s
   \<and> list_all (\<lambda>c. \<not> isWhiteSpace c) (santizeFilename s)
   \<and> list_all inFilenameClass (santizeFilename s)
   \<and> santizeFilename (santizeFilename s) = santizeFilename s
   \<and> (list_all inFilenameClass s \<longrightarrow> santizeFilename s = s)
   \<and> santizeFilename ''arrow-right'' = ''arrow-right''"
proof -
  have cls: "\<forall>c \<in> set (santizeFilename s). inFilenameClass c"
    by (rule santizeFilename_class)
  have ar: "\<forall>c \<in> set ''arrow-right''. inFilenameClass c"
    by (simp add: inFilenameClass_def code_def)
  show ?thesis
    using cls santizeFilename_fixes_class [OF cls] santizeFilename_fixes_class [OF ar]
      toLowerCase_fixes_class [OF cls] santizeFilename_fixes_class [of s]
    by (auto simp: list_all_iff class_not_whiteSpace)
qed

theorem C7_santizeFilename_witness:
  "list_all inFilenameClass ''my-icon-2''
   \<and> santizeFilename ''my-icon-2'' = ''my-icon-2''
   \<and> santizeFilename ''Arrow_Right Icon!'' = ''arrow-right-icon-''
   \<and> santizeFilename (santizeFilename ''Arrow_Right Icon!'') = santizeFilename ''Arrow_Right Icon!''"
proof -
  have h: "list_all inFilenameClass ''my-icon-2''"
    by (simp add: inFilenameClass_def code_def)
  have e: "santizeFilename ''Arrow_Right Icon!'' = ''arrow-right-icon-''"
    by code_simp
  show ?thesis
    using h C7_santizeFilename [of "''my-icon-2''"] C7_santizeFilename [of "''Arrow_Right Icon!''"] e
    by simp
qed

text \<open>
  C8. \<open>saveToFile\<close> does not read the \<open>overwrite\<close> flag: on every file system, two
  descriptors that differ in the flag only give the same result and the same world, and
  they have the same file path. On the file system in memory a descriptor with SVG text
  gets its directory created and its text written at its path, whatever file was there
  and whatever the flag is.
\<close>

theorem C8_overwrite_ignored:
  "saveToFile fs (this\<lparr>overwrite := True\<rparr>) w = saveToFile fs (this\<lparr>overwrite := False\<rparr>) w
   \<and> filePathOf (this\<lparr>overwrite := True\<rparr>) = filePathOf (this\<lparr>overwrite := False\<rparr>)
   \<and> (svgText this = Some svg \<and> svg \<noteq> [] \<longrightarrow>
        saveToFile memoryFs (this\<lparr>overwrite := b\<rparr>) w =
          (Inr (), w\<lparr>mkdirs := mkdirs w @ [dirname (filePathOf this)],
                    files := (files w)(filePathOf this \<mapsto> svg)\<rparr>))"
  by (simp add: saveToFile_overwrite) (simp add: saveToFile_def filePathOf_def memoryFs_def Let_def)

theorem C8_overwrite_ignored_witness:
  "svgText heart = Some ''<svg></svg>'' \<and> ''<svg></svg>'' \<noteq> []
   \<and> saveToFile memoryFs (heart\<lparr>overwrite := False\<rparr>)
         (emptyWorld\<lparr>files := [''./icons/heart.svg'' \<mapsto> ''old'']\<rparr>)
       = (Inr (), emptyWorld\<lparr>mkdirs := [''./icons''],
                    files := [''./icons/heart.svg'' \<mapsto> ''<svg></svg>'']\<rparr>)
   \<and> saveToFile memoryFs (heart\<lparr>overwrite := True\<rparr>)
         (emptyWorld\<lparr>files := [''./icons/heart.svg'' \<mapsto> ''old'']\<rparr>)
       = saveToFile memoryFs (heart\<lparr>overwrite := False\<rparr>)
         (emptyWorld\<lparr>files := [''./icons/heart.svg'' \<mapsto> ''old'']\<rparr>)"
proof -
  have s: "svgText heart = Some ''<svg></svg>''"
    by (simp add: heart_def)
  have p: "filePathOf heart = ''./icons/heart.svg''"
    by (simp add: filePathOf_def heart_def arrowRight_def)
  have d: "dirname ''./icons/heart.svg'' = ''./icons''"
    by code_simp
  show ?thesis
    using s C8_overwrite_ignored [of memoryFs heart
        "emptyWorld\<lparr>files := [''./icons/heart.svg'' \<mapsto> ''old'']\<rparr>" "''<svg></svg>''" False]
    by (simp add: p d emptyWorld_def)
qed

text \<open>
  C9. \<open>buildUrl\<close> substitutes the first occurrence of a placeholder only: of the
  occurrences of \<^verbatim>\<open>{variant}\<close>, of \<^verbatim>\<open>{size}\<close> and of \<^verbatim>\<open>{iconName}\<close> in the path
  template, all but at most one are still in the URL, whatever the variant, the size and
  the name are. For a template that has each placeholder twice, the second occurrence of
  each stays in the URL as it is written.
\<close>

theorem C9_first_occurrence_only:
  "occurrences ''{variant}'' (pathTemplate (repository this))
     \<le> Suc (occurrences ''{variant}'' (buildUrl this))
   \<and> occurrences ''{size}'' (pathTemplate (repository this))
     \<le> Suc (occurrences ''{size}'' (buildUrl this))
   \<and> occurrences ''{iconName}'' (pathTemplate (repository this))
     \<le> Suc (occurrences ''{iconName}'' (buildUrl this))
   \<and> buildUrl duplicated
     = ''https://raw.githubusercontent.com/tailwindlabs/heroicons/master/outline/{variant}/24{size}/arrow-right-{iconName}.svg''"
proof (intro conjI)
  show "occurrences ''{variant}'' (pathTemplate (repository this))
     \<le> Suc (occurrences ''{variant}'' (buildUrl this))"
    by (rule le_trans [OF variant_chain]) (simp only: Suc_le_mono, rule occurrences_buildUrl, simp)
  show "occurrences ''{size}'' (pathTemplate (repository this))
     \<le> Suc (occurrences ''{size}'' (buildUrl this))"
    by (rule le_trans [OF size_chain]) (simp only: Suc_le_mono, rule occurrences_buildUrl, simp)
  show "occurrences ''{iconName}'' (pathTemplate (repository this))
     \<le> Suc (occurrences ''{iconName}'' (buildUrl this))"
    by (rule le_trans [OF iconName_chain]) (simp only: Suc_le_mono, rule occurrences_buildUrl, simp)
  show "buildUrl duplicated
     = ''https://raw.githubusercontent.com/tailwindlabs/heroicons/master/outline/{variant}/24{size}/arrow-right-{iconName}.svg''"
    by code_simp
qed

text \<open>
  C10. The guard of \<open>grabSvgText\<close> tests truthiness: for a descriptor whose SVG text is
  the empty string, a call sends a request to the URL of the icon, whatever the network
  answers.
\<close>

theorem C10_empty_text_refetches:
  "svgText this = Some [] \<Longrightarrow>
     fetched (snd (snd (grabSvgText fetch this w))) = fetched w @ [buildUrl this]"
  by (simp add: grabSvgText_def truthy_def logError_def downloadError_def Let_def split: sum.splits)

theorem C10_empty_text_refetches_witness:
  "svgText (arrowRight\<lparr>svgText := Some []\<rparr>) = Some []
   \<and> fetched (snd (snd (grabSvgText (answering (okWith ''<svg></svg>''))
         (arrowRight\<lparr>svgText := Some []\<rparr>) emptyWorld)))
       = [''https://raw.githubusercontent.com/tailwindlabs/heroicons/master/optimized/24/outline/arrow-right.svg'']"
proof -
  have u: "buildUrl (arrowRight\<lparr>svgText := Some []\<rparr>) = ''https://raw.githubusercontent.com/tailwindlabs/heroicons/master/optimized/24/outline/arrow-right.svg''"
    by code_simp
  show ?thesis
    using C10_empty_text_refetches [of "arrowRight\<lparr>svgText := Some []\<rparr>"
        "answering (okWith ''<svg></svg>'')" emptyWorld]
    by (simp add: u emptyWorld_def)
qed

end
